theory Spec2Isabelle
  imports Main "HOL-Library.Char_ord" "HOL-Library.List_Lexorder" "HOL-Library.Product_Lexorder"
begin

section \<open>Python values, rows and exceptions\<close>

text \<open>
  The values that travel through \<^verbatim>\<open>resource.py\<close>: what a catalog query puts into a
  cell (\<^verbatim>\<open>None\<close>, booleans, integers, text) and the documents the two operations
  build from them (lists and dictionaries with string keys, in insertion order).
\<close>

datatype pyval =
    PNone
  | PBool bool
  | PInt int
  | PStr string
  | PList "pyval list"
  | PDict "(string \<times> pyval) list"

text \<open>\<^verbatim>\<open>row.cells\<close>: the dictionary from column label to value of one result row.\<close>

type_synonym cells = "(string \<times> pyval) list"

text \<open>
  The exceptions the two operations can meet: a missing dictionary key, an unhashable
  dictionary key, and whatever the query executor raises (with its message).
\<close>

datatype exn = KeyError string | TypeError string | ExecError string

text \<open>\<^verbatim>\<open>str(e)\<close>; the \<^verbatim>\<open>str\<close> of a \<^verbatim>\<open>KeyError\<close> is the \<^verbatim>\<open>repr\<close> of the key.\<close>

fun exn_str :: "exn \<Rightarrow> string" where
  "exn_str (KeyError k) = [CHR 0x27] @ k @ [CHR 0x27]"
| "exn_str (TypeError m) = m"
| "exn_str (ExecError m) = m"

text \<open>Sequencing of statements that may raise: the first exception wins.\<close>

fun ebind :: "exn + 'a \<Rightarrow> ('a \<Rightarrow> exn + 'b) \<Rightarrow> exn + 'b" where
  "ebind (Inl e) f = Inl e"
| "ebind (Inr x) f = f x"

text \<open>Python's truth value of an object, as \<^verbatim>\<open>if v:\<close> tests it.\<close>

fun truthy :: "pyval \<Rightarrow> bool" where
  "truthy PNone = False"
| "truthy (PBool b) = b"
| "truthy (PInt i) = (i \<noteq> 0)"
| "truthy (PStr s) = (s \<noteq> [])"
| "truthy (PList xs) = (xs \<noteq> [])"
| "truthy (PDict kvs) = (kvs \<noteq> [])"

text \<open>
  Python's \<^verbatim>\<open>==\<close> on the hashable values, which is also the equality of dictionary
  keys: \<^verbatim>\<open>True == 1\<close> and \<^verbatim>\<open>False == 0\<close>.
\<close>

fun py_eq :: "pyval \<Rightarrow> pyval \<Rightarrow> bool" where
  "py_eq (PBool b) (PInt i) = (i = (if b then 1 else 0))"
| "py_eq (PInt i) (PBool b) = (i = (if b then 1 else 0))"
| "py_eq x y = (x = y)"

text \<open>Lists and dictionaries cannot be dictionary keys.\<close>

fun hashable :: "pyval \<Rightarrow> bool" where
  "hashable (PList xs) = False"
| "hashable (PDict kvs) = False"
| "hashable v = True"

text \<open>\<^verbatim>\<open>d[k]\<close> raises \<^verbatim>\<open>KeyError\<close> on a missing key; \<^verbatim>\<open>d.get(k, default)\<close> returns the
  default only when the key is missing (a key stored with \<^verbatim>\<open>None\<close> yields \<^verbatim>\<open>None\<close>).\<close>

definition getitem :: "cells \<Rightarrow> string \<Rightarrow> exn + pyval" where
  "getitem d k = (case map_of d k of None \<Rightarrow> Inl (KeyError k) | Some v \<Rightarrow> Inr v)"

definition dict_get :: "cells \<Rightarrow> string \<Rightarrow> pyval \<Rightarrow> pyval" where
  "dict_get d k dflt = (case map_of d k of None \<Rightarrow> dflt | Some v \<Rightarrow> v)"

text \<open>\<^verbatim>\<open>d[k] = v\<close>: an existing key keeps its place, a new key goes last.\<close>

fun dict_setitem :: "cells \<Rightarrow> string \<Rightarrow> pyval \<Rightarrow> cells" where
  "dict_setitem [] k v = [(k, v)]"
| "dict_setitem ((k', v') # d) k v =
     (if k' = k then (k, v) # d else (k', v') # dict_setitem d k v)"

section \<open>The collaborators outside the module\<close>

text \<open>
  The catalog queries of the module, named by what they select; the SQL driver is taken
  as a parameter: a query and its bound parameters give either an exception or the rows
  (\<^verbatim>\<open>execute_query\<close> is declared to return an optional list).
\<close>

datatype query =
    SchemasQ | TablesQ | ViewsQ | ColumnsQ | ConstraintsQ | IndexesQ | DependenciesQ

type_synonym sql_driver = "query \<Rightarrow> pyval list \<Rightarrow> exn + cells list option"

text \<open>\<^verbatim>\<open>if rows:\<close> on an optional list, and the rows a \<^verbatim>\<open>for\<close> loop then visits.\<close>

fun rows_truthy :: "cells list option \<Rightarrow> bool" where
  "rows_truthy None = False"
| "rows_truthy (Some rs) = (rs \<noteq> [])"

fun rows_of :: "cells list option \<Rightarrow> cells list" where
  "rows_of None = []"
| "rows_of (Some rs) = rs"

datatype response = TextResponse pyval | ErrorResponse string

text \<open>Modelled from the spec: \<^verbatim>\<open>format_text_response\<close> of \<^verbatim>\<open>utils/reponse.py\<close>, the
  success envelope around a document.\<close>

definition format_text_response :: "pyval \<Rightarrow> response" where
  "format_text_response doc = TextResponse doc"

text \<open>Modelled from the spec: \<^verbatim>\<open>format_error_response\<close> of \<^verbatim>\<open>utils/reponse.py\<close>, the
  single operation-level error envelope around a message.\<close>

definition format_error_response :: "string \<Rightarrow> response" where
  "format_error_response msg = ErrorResponse msg"

section \<open>The column collector\<close>

text \<open>
  The body of \<^verbatim>\<open>for r in col_rows\<close>, the same text in \<^verbatim>\<open>_get_tables_impl\<close> and
  \<^verbatim>\<open>_get_views_impl\<close>: six fixed keys, then three keys added only when the cell is
  truthy.
\<close>

definition add_detail :: "cells \<Rightarrow> string \<Rightarrow> string \<Rightarrow> cells \<Rightarrow> exn + cells" where
  "add_detail r label key col_info =
     (if truthy (dict_get r label PNone)
      then ebind (getitem r label) (\<lambda>v. Inr (dict_setitem col_info key v))
      else Inr col_info)"

definition col_info :: "cells \<Rightarrow> exn + pyval" where
  "col_info r =
     ebind (getitem r ''column_name'') (\<lambda>name.
     ebind (getitem r ''data_type'') (\<lambda>data_type.
     ebind (getitem r ''is_nullable'') (\<lambda>is_nullable.
     ebind (getitem r ''column_default'') (\<lambda>dflt.
     ebind (getitem r ''ordinal_position'') (\<lambda>position.
     ebind (add_detail r ''character_maximum_length'' ''max_length''
              [(''name'', name), (''data_type'', data_type), (''is_nullable'', is_nullable),
               (''default'', dflt), (''position'', position),
               (''comment'', dict_get r ''column_comment'' (PStr []))]) (\<lambda>c1.
     ebind (add_detail r ''numeric_precision'' ''precision'' c1) (\<lambda>c2.
     ebind (add_detail r ''numeric_scale'' ''scale'' c2) (\<lambda>c3.
     Inr (PDict c3)))))))))"

text \<open>\<^verbatim>\<open>columns = []\<close>, then one \<^verbatim>\<open>append\<close> per row; an exception leaves the loop.\<close>

fun columns_loop :: "pyval list \<Rightarrow> cells list \<Rightarrow> exn + pyval list" where
  "columns_loop columns [] = Inr columns"
| "columns_loop columns (r # rs) =
     ebind (col_info r) (\<lambda>ci. columns_loop (columns @ [ci]) rs)"

definition collect_columns :: "sql_driver \<Rightarrow> pyval \<Rightarrow> pyval \<Rightarrow> exn + pyval list" where
  "collect_columns sql_driver schema_name entity_name =
     ebind (sql_driver ColumnsQ [schema_name, entity_name]) (\<lambda>col_rows.
       if rows_truthy col_rows then columns_loop [] (rows_of col_rows) else Inr [])"

section \<open>The constraint collector\<close>

text \<open>
  \<^verbatim>\<open>constraints\<close> is a dictionary keyed by constraint name, in insertion order. The
  inner dictionary \<^verbatim>\<open>{"type": .., "columns": [..]}\<close> with its optional
  \<^verbatim>\<open>"references"\<close> key has a fixed shape and is kept as a record until
  \<^verbatim>\<open>constraints_list\<close> is built.
\<close>

record con_data =
  con_type :: pyval
  con_columns :: "pyval list"
  con_references :: "pyval option"

type_synonym constraints = "(pyval \<times> con_data) list"

text \<open>\<^verbatim>\<open>cname in constraints\<close>.\<close>

fun con_contains :: "constraints \<Rightarrow> pyval \<Rightarrow> bool" where
  "con_contains [] k = False"
| "con_contains ((k', d) # cs) k = (py_eq k' k \<or> con_contains cs k)"

text \<open>An update of \<^verbatim>\<open>constraints[cname]\<close> in place; the source only does it for a key
  that it has just found or inserted.\<close>

fun con_modify :: "constraints \<Rightarrow> pyval \<Rightarrow> (con_data \<Rightarrow> con_data) \<Rightarrow> constraints" where
  "con_modify [] k f = []"
| "con_modify ((k', d) # cs) k f =
     (if py_eq k' k then (k', f d) # cs else (k', d) # con_modify cs k f)"

text \<open>The block under \<^verbatim>\<open>if cname not in constraints:\<close>: the new entry, and its
  reference block when the row is a foreign-key row with a target table.\<close>

definition con_enter :: "constraints \<Rightarrow> cells \<Rightarrow> pyval \<Rightarrow> pyval \<Rightarrow> exn + constraints" where
  "con_enter constraints con_row cname ctype =
     (if \<not> con_contains constraints cname
      then
        (let c1 = constraints @
               [(cname, \<lparr>con_type = ctype, con_columns = [], con_references = None\<rparr>)]
         in if ctype = PStr ''FOREIGN KEY''
               \<and> truthy (dict_get con_row ''foreign_table_name'' PNone)
            then
              ebind (getitem con_row ''foreign_table_schema'') (\<lambda>fschema.
              ebind (getitem con_row ''foreign_table_name'') (\<lambda>ftable.
              ebind (getitem con_row ''foreign_column_name'') (\<lambda>fcolumn.
              Inr (con_modify c1 cname (\<lambda>d. d\<lparr>con_references :=
                     Some (PDict [(''schema'', fschema), (''table'', ftable),
                                  (''column'', fcolumn)])\<rparr>)))))
            else Inr c1)
      else Inr constraints)"

text \<open>The body of \<^verbatim>\<open>for con_row in con_rows\<close>.\<close>

definition con_step :: "constraints \<Rightarrow> cells \<Rightarrow> exn + constraints" where
  "con_step constraints con_row =
     ebind (getitem con_row ''constraint_name'') (\<lambda>cname.
     ebind (getitem con_row ''constraint_type'') (\<lambda>ctype.
     ebind (getitem con_row ''column_name'') (\<lambda>col.
     if \<not> hashable cname then Inl (TypeError ''unhashable type'')
     else
       ebind (con_enter constraints con_row cname ctype) (\<lambda>c2.
       Inr (if truthy col
            then con_modify c2 cname (\<lambda>d. d\<lparr>con_columns := con_columns d @ [col]\<rparr>)
            else c2)))))"

fun con_loop :: "constraints \<Rightarrow> cells list \<Rightarrow> exn + constraints" where
  "con_loop constraints [] = Inr constraints"
| "con_loop constraints (r # rs) = ebind (con_step constraints r) (\<lambda>c. con_loop c rs)"

text \<open>\<^verbatim>\<open>{"name": name, **data}\<close>: the name first, then the keys of the inner dictionary
  in the order they were stored.\<close>

fun con_descriptor :: "pyval \<times> con_data \<Rightarrow> pyval" where
  "con_descriptor (name, d) =
     PDict ([(''name'', name), (''type'', con_type d), (''columns'', PList (con_columns d))]
            @ (case con_references d of None \<Rightarrow> [] | Some r \<Rightarrow> [(''references'', r)]))"

text \<open>From the rows of the constraint query to \<^verbatim>\<open>constraints_list\<close>.\<close>

definition constraints_list :: "cells list option \<Rightarrow> exn + pyval list" where
  "constraints_list con_rows =
     ebind (if rows_truthy con_rows then con_loop [] (rows_of con_rows) else Inr [])
       (\<lambda>constraints. Inr (map con_descriptor constraints))"

definition collect_constraints :: "sql_driver \<Rightarrow> pyval \<Rightarrow> pyval \<Rightarrow> exn + pyval list" where
  "collect_constraints sql_driver schema_name table_name =
     ebind (sql_driver ConstraintsQ [schema_name, table_name]) constraints_list"

section \<open>The index collector\<close>

definition index_info :: "cells \<Rightarrow> exn + pyval" where
  "index_info idx_row =
     ebind (getitem idx_row ''indexname'') (\<lambda>name.
     ebind (getitem idx_row ''indexdef'') (\<lambda>definition.
     ebind (getitem idx_row ''index_size'') (\<lambda>size.
     ebind (getitem idx_row ''is_unique'') (\<lambda>is_unique.
     ebind (getitem idx_row ''is_primary'') (\<lambda>is_primary.
     Inr (PDict [(''name'', name), (''definition'', definition), (''size'', size),
                 (''is_unique'', is_unique), (''is_primary'', is_primary)]))))))"

fun indexes_loop :: "pyval list \<Rightarrow> cells list \<Rightarrow> exn + pyval list" where
  "indexes_loop indexes [] = Inr indexes"
| "indexes_loop indexes (r # rs) =
     ebind (index_info r) (\<lambda>ii. indexes_loop (indexes @ [ii]) rs)"

definition collect_indexes :: "sql_driver \<Rightarrow> pyval \<Rightarrow> pyval \<Rightarrow> exn + pyval list" where
  "collect_indexes sql_driver schema_name table_name =
     ebind (sql_driver IndexesQ [schema_name, table_name]) (\<lambda>idx_rows.
       if rows_truthy idx_rows then indexes_loop [] (rows_of idx_rows) else Inr [])"

section \<open>The dependency resolver\<close>

text \<open>\<^verbatim>\<open>dep_type_map.get(source_type, "unknown")\<close>; a list or dictionary as the key
  raises \<^verbatim>\<open>TypeError\<close>.\<close>

definition dep_type_map_get :: "pyval \<Rightarrow> exn + pyval" where
  "dep_type_map_get source_type =
     (if \<not> hashable source_type then Inl (TypeError ''unhashable type'')
      else if py_eq (PStr ''r'') source_type then Inr (PStr ''table'')
      else if py_eq (PStr ''v'') source_type then Inr (PStr ''view'')
      else if py_eq (PStr ''m'') source_type then Inr (PStr ''materialized view'')
      else Inr (PStr ''unknown''))"

definition dep_info :: "cells \<Rightarrow> exn + pyval" where
  "dep_info dep_row =
     ebind (getitem dep_row ''source_schema'') (\<lambda>schema.
     ebind (getitem dep_row ''source_table'') (\<lambda>name.
     ebind (getitem dep_row ''source_type'') (\<lambda>source_type.
     ebind (dep_type_map_get source_type) (\<lambda>kind.
     Inr (PDict [(''schema'', schema), (''name'', name), (''type'', kind)])))))"

fun dependencies_loop :: "pyval list \<Rightarrow> cells list \<Rightarrow> exn + pyval list" where
  "dependencies_loop dependencies [] = Inr dependencies"
| "dependencies_loop dependencies (r # rs) =
     ebind (dep_info r) (\<lambda>di. dependencies_loop (dependencies @ [di]) rs)"

definition collect_dependencies :: "sql_driver \<Rightarrow> pyval \<Rightarrow> pyval \<Rightarrow> exn + pyval list" where
  "collect_dependencies sql_driver schema_name view_name =
     ebind (sql_driver DependenciesQ [schema_name, view_name]) (\<lambda>dep_rows.
       if rows_truthy dep_rows then dependencies_loop [] (rows_of dep_rows) else Inr [])"

section \<open>Assembling one entity\<close>

text \<open>The body of the inner \<^verbatim>\<open>try\<close> of \<^verbatim>\<open>_get_tables_impl\<close>: three collectors in
  sequence, then the record.\<close>

definition table_info :: "sql_driver \<Rightarrow> cells \<Rightarrow> pyval \<Rightarrow> pyval \<Rightarrow> exn + pyval" where
  "table_info sql_driver row schema_name table_name =
     ebind (collect_columns sql_driver schema_name table_name) (\<lambda>columns.
     ebind (collect_constraints sql_driver schema_name table_name) (\<lambda>constraints_list.
     ebind (collect_indexes sql_driver schema_name table_name) (\<lambda>indexes.
     Inr (PDict [(''schema'', schema_name), (''name'', table_name), (''type'', PStr ''table''),
                 (''comment'', dict_get row ''table_comment'' (PStr [])),
                 (''size'', dict_get row ''table_size'' (PStr [])),
                 (''estimated_rows'', dict_get row ''estimated_rows'' (PInt 0)),
                 (''columns'', PList columns),
                 (''constraints'', PList constraints_list),
                 (''indexes'', PList indexes)]))))"

text \<open>The body of the inner \<^verbatim>\<open>try\<close> of \<^verbatim>\<open>_get_views_impl\<close>.\<close>

definition view_info :: "sql_driver \<Rightarrow> cells \<Rightarrow> pyval \<Rightarrow> pyval \<Rightarrow> exn + pyval" where
  "view_info sql_driver row schema_name view_name =
     ebind (collect_columns sql_driver schema_name view_name) (\<lambda>columns.
     ebind (collect_dependencies sql_driver schema_name view_name) (\<lambda>dependencies.
     Inr (PDict [(''schema'', schema_name), (''name'', view_name), (''type'', PStr ''view''),
                 (''comment'', dict_get row ''view_comment'' (PStr [])),
                 (''definition'', dict_get row ''view_definition'' (PStr [])),
                 (''columns'', PList columns),
                 (''dependencies'', PList dependencies)])))"

section \<open>The two operations\<close>

text \<open>
  \<^verbatim>\<open>for row in table_rows\<close>: the two key reads stand before the inner \<^verbatim>\<open>try\<close>, so
  their \<^verbatim>\<open>KeyError\<close> leaves the loop; an exception of the body is logged and the loop
  goes on with the next row. Logging has no effect on the result and is left out.
\<close>

fun tables_loop :: "sql_driver \<Rightarrow> pyval list \<Rightarrow> cells list \<Rightarrow> exn + pyval list" where
  "tables_loop sql_driver tables_info [] = Inr tables_info"
| "tables_loop sql_driver tables_info (row # rows) =
     ebind (getitem row ''table_schema'') (\<lambda>schema_name.
     ebind (getitem row ''table_name'') (\<lambda>table_name.
       case table_info sql_driver row schema_name table_name of
         Inl e \<Rightarrow> tables_loop sql_driver tables_info rows
       | Inr ti \<Rightarrow> tables_loop sql_driver (tables_info @ [ti]) rows))"

fun views_loop :: "sql_driver \<Rightarrow> pyval list \<Rightarrow> cells list \<Rightarrow> exn + pyval list" where
  "views_loop sql_driver views_info [] = Inr views_info"
| "views_loop sql_driver views_info (row # rows) =
     ebind (getitem row ''table_schema'') (\<lambda>schema_name.
     ebind (getitem row ''table_name'') (\<lambda>view_name.
       case view_info sql_driver row schema_name view_name of
         Inl e \<Rightarrow> views_loop sql_driver views_info rows
       | Inr vi \<Rightarrow> views_loop sql_driver (views_info @ [vi]) rows))"

text \<open>\<^verbatim>\<open>[row.cells for row in schema_rows] if schema_rows else []\<close>.\<close>

definition schemas_of :: "cells list option \<Rightarrow> pyval list" where
  "schemas_of schema_rows =
     (if rows_truthy schema_rows then map PDict (rows_of schema_rows) else [])"

text \<open>
  The outer \<^verbatim>\<open>try\<close> of \<^verbatim>\<open>_get_tables_impl\<close> as a computation that may raise, and
  the operation itself, which turns the exception into the error response.
  \<^verbatim>\<open>get_sql_driver_for_database\<close> lives outside the module and is a parameter.
\<close>

definition tables_try ::
  "(string \<Rightarrow> exn + sql_driver) \<Rightarrow> string \<Rightarrow> exn + response" where
  "tables_try get_sql_driver_for_database database_name =
     ebind (get_sql_driver_for_database database_name) (\<lambda>sql_driver.
     ebind (sql_driver SchemasQ []) (\<lambda>schema_rows.
     ebind (sql_driver TablesQ []) (\<lambda>table_rows.
       if \<not> rows_truthy table_rows
       then Inr (format_text_response (PDict
              [(''database'', PStr database_name),
               (''schemas'', PList (schemas_of schema_rows)),
               (''tables'', PList [])]))
       else
         ebind (tables_loop sql_driver [] (rows_of table_rows)) (\<lambda>tables_info.
         Inr (format_text_response (PDict
              [(''database'', PStr database_name),
               (''schemas'', PList (schemas_of schema_rows)),
               (''tables'', PList tables_info),
               (''total_tables'', PInt (int (length tables_info)))]))))))"

definition get_tables_impl ::
  "(string \<Rightarrow> exn + sql_driver) \<Rightarrow> string \<Rightarrow> response" where
  "get_tables_impl get_sql_driver_for_database database_name =
     (case tables_try get_sql_driver_for_database database_name of
        Inl e \<Rightarrow> format_error_response (exn_str e)
      | Inr r \<Rightarrow> r)"

definition views_try ::
  "(string \<Rightarrow> exn + sql_driver) \<Rightarrow> string \<Rightarrow> exn + response" where
  "views_try get_sql_driver_for_database database_name =
     ebind (get_sql_driver_for_database database_name) (\<lambda>sql_driver.
     ebind (sql_driver SchemasQ []) (\<lambda>schema_rows.
     ebind (sql_driver ViewsQ []) (\<lambda>view_rows.
       if \<not> rows_truthy view_rows
       then Inr (format_text_response (PDict
              [(''database'', PStr database_name),
               (''schemas'', PList (schemas_of schema_rows)),
               (''views'', PList [])]))
       else
         ebind (views_loop sql_driver [] (rows_of view_rows)) (\<lambda>views_info.
         Inr (format_text_response (PDict
              [(''database'', PStr database_name),
               (''schemas'', PList (schemas_of schema_rows)),
               (''views'', PList views_info),
               (''total_views'', PInt (int (length views_info)))]))))))"

definition get_views_impl ::
  "(string \<Rightarrow> exn + sql_driver) \<Rightarrow> string \<Rightarrow> response" where
  "get_views_impl get_sql_driver_for_database database_name =
     (case views_try get_sql_driver_for_database database_name of
        Inl e \<Rightarrow> format_error_response (exn_str e)
      | Inr r \<Rightarrow> r)"

section \<open>The SQL text of the schema and constraint queries\<close>

text \<open>
  \<^verbatim>\<open>text LIKE pattern\<close>: \<^verbatim>\<open>%\<close> matches any run of characters, \<^verbatim>\<open>_\<close> matches any one
  character, a backslash makes the next pattern character literal, every other
  character matches itself. (A pattern that ends in a lone backslash is rejected by the
  database; it matches nothing here.)
\<close>

fun sql_like :: "string \<Rightarrow> string \<Rightarrow> bool" where
  "sql_like [] [] = True"
| "sql_like (c # cs) [] = False"
| "sql_like s (p # ps) =
     (if p = CHR ''%'' then
        (sql_like s ps \<or> (case s of [] \<Rightarrow> False | c # cs \<Rightarrow> sql_like cs (p # ps)))
      else if p = CHR ''_'' then
        (case s of [] \<Rightarrow> False | c # cs \<Rightarrow> sql_like cs ps)
      else if p = CHR 0x5C then
        (case ps of [] \<Rightarrow> False
         | q # qs \<Rightarrow> (case s of [] \<Rightarrow> False | c # cs \<Rightarrow> c = q \<and> sql_like cs qs))
      else
        (case s of [] \<Rightarrow> False | c # cs \<Rightarrow> c = p \<and> sql_like cs ps))"

text \<open>The columns of \<^verbatim>\<open>information_schema.schemata\<close> that the schema query reads.\<close>

record schemata_row =
  sch_name :: string
  sch_owner :: string

text \<open>
  The schema query of both operations: the \<^verbatim>\<open>WHERE\<close> clause, \<^verbatim>\<open>ORDER BY schema_name\<close>
  (strings compared character by character, as under the \<^verbatim>\<open>C\<close> collation), and the
  three selected columns.
\<close>

definition schemas_query :: "schemata_row list \<Rightarrow> cells list" where
  "schemas_query schemata =
     map (\<lambda>s. [(''schema_name'', PStr (sch_name s)),
                (''schema_owner'', PStr (sch_owner s)),
                (''schema_type'', PStr (if sql_like (sch_name s) ''pg_%'' then ''system''
                                        else if sch_name s = ''information_schema'' then ''system''
                                        else ''user''))])
       (sort_key sch_name
          (filter (\<lambda>s. \<not> sql_like (sch_name s) ''pg_%'' \<and> sch_name s \<noteq> ''information_schema'')
             schemata))"

text \<open>The columns of the three \<^verbatim>\<open>information_schema\<close> views that the constraint query
  reads.\<close>

record table_constraints_row =
  tc_constraint_name :: string
  tc_constraint_type :: string
  tc_table_schema :: string
  tc_table_name :: string

record key_column_usage_row =
  kcu_constraint_name :: string
  kcu_table_schema :: string
  kcu_column_name :: string
  kcu_ordinal_position :: int

record constraint_column_usage_row =
  ccu_constraint_name :: string
  ccu_table_schema :: string
  ccu_table_name :: string
  ccu_column_name :: string

text \<open>\<^verbatim>\<open>xs LEFT JOIN ys ON cond\<close>: every match of a left row, or the left row alone.\<close>

definition left_join :: "'a list \<Rightarrow> 'b list \<Rightarrow> ('a \<Rightarrow> 'b \<Rightarrow> bool) \<Rightarrow> ('a \<times> 'b option) list" where
  "left_join xs ys cond =
     concat (map (\<lambda>x. case filter (cond x) ys of
                          [] \<Rightarrow> [(x, None)]
                        | m # ms \<Rightarrow> map (\<lambda>y. (x, Some y)) (m # ms)) xs)"

text \<open>A nullable text column of a joined row.\<close>

fun nullable :: "('a \<Rightarrow> string) \<Rightarrow> 'a option \<Rightarrow> pyval" where
  "nullable f None = PNone"
| "nullable f (Some x) = PStr (f x)"

text \<open>
  The constraint query of \<^verbatim>\<open>_get_tables_impl\<close> for the bound parameters \<open>s\<close> and
  \<open>t\<close>: the two left joins with their \<^verbatim>\<open>ON\<close> conditions as written, the
  \<^verbatim>\<open>WHERE\<close> clause, the \<^verbatim>\<open>ORDER BY\<close> (a stable sort, nulls last), and the six selected
  columns.
\<close>

definition constraints_query ::
  "table_constraints_row list \<Rightarrow> key_column_usage_row list \<Rightarrow>
   constraint_column_usage_row list \<Rightarrow> string \<Rightarrow> string \<Rightarrow> cells list" where
  "constraints_query tcs kcus ccus s t =
     (let j1 = left_join tcs kcus (\<lambda>tc kcu.
                 tc_constraint_name tc = kcu_constraint_name kcu
                 \<and> tc_table_schema tc = kcu_table_schema kcu);
          j2 = left_join j1 ccus (\<lambda>(tc, kcu) ccu.
                 tc_constraint_name tc = ccu_constraint_name ccu
                 \<and> tc_constraint_type tc = ''FOREIGN KEY'');
          selected = filter (\<lambda>((tc, kcu), ccu).
                 tc_table_schema tc = s \<and> tc_table_name tc = t) j2;
          ordered = sort_key (\<lambda>((tc, kcu), ccu).
                 (tc_constraint_type tc, tc_constraint_name tc,
                  case kcu of None \<Rightarrow> (True, 0) | Some k \<Rightarrow> (False, kcu_ordinal_position k)))
                 selected
      in map (\<lambda>((tc, kcu), ccu).
            [(''constraint_name'', PStr (tc_constraint_name tc)),
             (''constraint_type'', PStr (tc_constraint_type tc)),
             (''column_name'', nullable kcu_column_name kcu),
             (''foreign_table_schema'',
                if tc_constraint_type tc = ''FOREIGN KEY'' then nullable ccu_table_schema ccu
                else PNone),
             (''foreign_table_name'',
                if tc_constraint_type tc = ''FOREIGN KEY'' then nullable ccu_table_name ccu
                else PNone),
             (''foreign_column_name'',
                if tc_constraint_type tc = ''FOREIGN KEY'' then nullable ccu_column_name ccu
                else PNone)]) ordered)"

section \<open>Reading rows and reports\<close>

text \<open>A row carries a column label.\<close>

definition has_key :: "cells \<Rightarrow> string \<Rightarrow> bool" where
  "has_key r k = (map_of r k \<noteq> None)"

text \<open>A row of the entity listing carries the two labels that name the entity.\<close>

definition listed :: "cells \<Rightarrow> bool" where
  "listed row = (has_key row ''table_schema'' \<and> has_key row ''table_name'')"

text \<open>The value stored under a key of a document.\<close>

fun field :: "pyval \<Rightarrow> string \<Rightarrow> pyval option" where
  "field (PDict d) k = map_of d k"
| "field v k = None"

text \<open>A record names the entity \<open>(s, n)\<close>.\<close>

definition names_entity :: "pyval \<Rightarrow> pyval \<Rightarrow> pyval \<Rightarrow> bool" where
  "names_entity s n rec = (field rec ''schema'' = Some s \<and> field rec ''name'' = Some n)"

text \<open>
  One pass of the entity loop for a row on its own: the record of the row, or nothing
  when a collector raised (or the row does not name an entity).
\<close>

definition table_record :: "sql_driver \<Rightarrow> cells \<Rightarrow> pyval option" where
  "table_record sql_driver row =
     (case ebind (getitem row ''table_schema'') (\<lambda>schema_name.
           ebind (getitem row ''table_name'') (\<lambda>table_name.
           table_info sql_driver row schema_name table_name)) of
        Inl e \<Rightarrow> None
      | Inr ti \<Rightarrow> Some ti)"

definition view_record :: "sql_driver \<Rightarrow> cells \<Rightarrow> pyval option" where
  "view_record sql_driver row =
     (case ebind (getitem row ''table_schema'') (\<lambda>schema_name.
           ebind (getitem row ''table_name'') (\<lambda>view_name.
           view_info sql_driver row schema_name view_name)) of
        Inl e \<Rightarrow> None
      | Inr vi \<Rightarrow> Some vi)"

text \<open>Some collector query for the entity \<open>(s, n)\<close> raises.\<close>

definition table_collector_fails :: "sql_driver \<Rightarrow> pyval \<Rightarrow> pyval \<Rightarrow> bool" where
  "table_collector_fails d s n =
     (isl (d ColumnsQ [s, n]) \<or> isl (d ConstraintsQ [s, n]) \<or> isl (d IndexesQ [s, n]))"

definition view_collector_fails :: "sql_driver \<Rightarrow> pyval \<Rightarrow> pyval \<Rightarrow> bool" where
  "view_collector_fails d s n =
     (isl (d ColumnsQ [s, n]) \<or> isl (d DependenciesQ [s, n]))"

text \<open>The two reports of the non-empty path, as the source builds them.\<close>

definition tables_report :: "string \<Rightarrow> pyval list \<Rightarrow> pyval list \<Rightarrow> response" where
  "tables_report database_name schemas tables_info =
     TextResponse (PDict [(''database'', PStr database_name),
                          (''schemas'', PList schemas),
                          (''tables'', PList tables_info),
                          (''total_tables'', PInt (int (length tables_info)))])"

definition views_report :: "string \<Rightarrow> pyval list \<Rightarrow> pyval list \<Rightarrow> response" where
  "views_report database_name schemas views_info =
     TextResponse (PDict [(''database'', PStr database_name),
                          (''schemas'', PList schemas),
                          (''views'', PList views_info),
                          (''total_views'', PInt (int (length views_info)))])"

text \<open>
  Rows as the collector queries return them: a row carries the labels its query selects
  and the loop reads with \<^verbatim>\<open>cells[..]\<close>, and a value used as a dictionary key is
  hashable.
\<close>

definition column_row_ok :: "cells \<Rightarrow> bool" where
  "column_row_ok r =
     (has_key r ''column_name'' \<and> has_key r ''data_type'' \<and> has_key r ''is_nullable''
      \<and> has_key r ''column_default'' \<and> has_key r ''ordinal_position'')"

definition key_ok :: "cells \<Rightarrow> string \<Rightarrow> bool" where
  "key_ok r k = (case map_of r k of None \<Rightarrow> False | Some v \<Rightarrow> hashable v)"

definition constraint_row_ok :: "cells \<Rightarrow> bool" where
  "constraint_row_ok r =
     (key_ok r ''constraint_name'' \<and> has_key r ''constraint_type''
      \<and> has_key r ''column_name'' \<and> has_key r ''foreign_table_schema''
      \<and> has_key r ''foreign_table_name'' \<and> has_key r ''foreign_column_name'')"

definition index_row_ok :: "cells \<Rightarrow> bool" where
  "index_row_ok r =
     (has_key r ''indexname'' \<and> has_key r ''indexdef'' \<and> has_key r ''index_size''
      \<and> has_key r ''is_unique'' \<and> has_key r ''is_primary'')"

definition dependency_row_ok :: "cells \<Rightarrow> bool" where
  "dependency_row_ok r =
     (has_key r ''source_schema'' \<and> has_key r ''source_table'' \<and> key_ok r ''source_type'')"

text \<open>A dependency row passes the filter \<^verbatim>\<open>relkind IN ('r', 'v', 'm')\<close> of its
  query.\<close>

definition relkind_filtered :: "cells \<Rightarrow> bool" where
  "relkind_filtered dep_row =
     (getitem dep_row ''source_type'' = Inr (PStr ''r'')
      \<or> getitem dep_row ''source_type'' = Inr (PStr ''v'')
      \<or> getitem dep_row ''source_type'' = Inr (PStr ''m''))"

text \<open>
  Reading the constraint dictionary: the entry stored under a name, its columns, and
  the absence of two keys that Python holds equal.
\<close>

fun con_lookup :: "constraints \<Rightarrow> pyval \<Rightarrow> con_data option" where
  "con_lookup [] k = None"
| "con_lookup ((k', d) # cs) k = (if py_eq k' k then Some d else con_lookup cs k)"

definition cols_of :: "constraints \<Rightarrow> pyval \<Rightarrow> pyval list" where
  "cols_of cs k = (case con_lookup cs k of None \<Rightarrow> [] | Some d \<Rightarrow> con_columns d)"

fun keys_distinct :: "constraints \<Rightarrow> bool" where
  "keys_distinct [] = True"
| "keys_distinct ((k, d) # cs) = (\<not> con_contains cs k \<and> keys_distinct cs)"

text \<open>A row of the constraint query belongs to the constraint named \<open>n\<close>.\<close>

definition names_constraint :: "pyval \<Rightarrow> cells \<Rightarrow> bool" where
  "names_constraint n r =
     (case getitem r ''constraint_name'' of Inl e \<Rightarrow> False | Inr k \<Rightarrow> py_eq k n)"

text \<open>The column a row contributes: its \<^verbatim>\<open>column_name\<close> when that is truthy, nothing
  when it is null (or empty).\<close>

definition row_column :: "cells \<Rightarrow> pyval list" where
  "row_column r =
     (case getitem r ''column_name'' of
        Inl e \<Rightarrow> []
      | Inr col \<Rightarrow> if truthy col then [col] else [])"

text \<open>The columns that the rows of the constraint \<open>n\<close> contribute, in row order.\<close>

definition columns_for :: "cells list \<Rightarrow> pyval \<Rightarrow> pyval list" where
  "columns_for rows n = concat (map row_column (filter (names_constraint n) rows))"

text \<open>The descriptors of \<^verbatim>\<open>constraints_list\<close> that carry the name \<open>n\<close>.\<close>

definition named :: "pyval \<Rightarrow> pyval \<Rightarrow> bool" where
  "named n d = (case field d ''name'' of None \<Rightarrow> False | Some k \<Rightarrow> py_eq k n)"

definition descriptors_for :: "pyval list \<Rightarrow> pyval \<Rightarrow> pyval list" where
  "descriptors_for cl n = filter (named n) cl"

section \<open>Concrete catalog states\<close>

text \<open>A database in which every query succeeds with no rows.\<close>

definition empty_database :: sql_driver where
  "empty_database q params = Inr (Some [])"

text \<open>The column row of an \<^verbatim>\<open>integer\<close> column: the catalog reports precision 32 and
  scale 0 for it.\<close>

definition integer_column_row :: cells where
  "integer_column_row =
     [(''column_name'', PStr ''id''), (''data_type'', PStr ''integer''),
      (''is_nullable'', PStr ''NO''), (''column_default'', PNone),
      (''ordinal_position'', PInt 1), (''character_maximum_length'', PNone),
      (''numeric_precision'', PInt 32), (''numeric_scale'', PInt 0),
      (''column_comment'', PStr ''surrogate key'')]"

text \<open>The column row of a \<^verbatim>\<open>text\<close> column without a description: the left join on
  \<^verbatim>\<open>pg_description\<close> finds nothing and the selected \<^verbatim>\<open>column_comment\<close> is null.\<close>

definition uncommented_column_row :: cells where
  "uncommented_column_row =
     [(''column_name'', PStr ''email''), (''data_type'', PStr ''text''),
      (''is_nullable'', PStr ''NO''), (''column_default'', PNone),
      (''ordinal_position'', PInt 2), (''character_maximum_length'', PNone),
      (''numeric_precision'', PNone), (''numeric_scale'', PNone),
      (''column_comment'', PNone)]"

text \<open>Three schemas: \<^verbatim>\<open>public\<close>, the system schema \<^verbatim>\<open>pg_catalog\<close>, and a user schema
  whose name starts with \<^verbatim>\<open>pg\<close> but not with \<^verbatim>\<open>pg_\<close>.\<close>

definition three_schemata :: "schemata_row list" where
  "three_schemata =
     [\<lparr>sch_name = ''public'', sch_owner = ''postgres''\<rparr>,
      \<lparr>sch_name = ''pgboss'', sch_owner = ''app''\<rparr>,
      \<lparr>sch_name = ''pg_catalog'', sch_owner = ''postgres''\<rparr>]"

text \<open>
  The catalog rows of
  \<^verbatim>\<open>CONSTRAINT child_fk FOREIGN KEY (a, b) REFERENCES parent (x, y)\<close> on
  \<^verbatim>\<open>public.child\<close>: one constraint, two referencing columns in
  \<^verbatim>\<open>key_column_usage\<close>, two referenced columns in \<^verbatim>\<open>constraint_column_usage\<close>.
\<close>

definition child_fk_tc :: "table_constraints_row list" where
  "child_fk_tc =
     [\<lparr>tc_constraint_name = ''child_fk'', tc_constraint_type = ''FOREIGN KEY'',
       tc_table_schema = ''public'', tc_table_name = ''child''\<rparr>]"

definition child_fk_kcu :: "key_column_usage_row list" where
  "child_fk_kcu =
     [\<lparr>kcu_constraint_name = ''child_fk'', kcu_table_schema = ''public'',
       kcu_column_name = ''a'', kcu_ordinal_position = 1\<rparr>,
      \<lparr>kcu_constraint_name = ''child_fk'', kcu_table_schema = ''public'',
       kcu_column_name = ''b'', kcu_ordinal_position = 2\<rparr>]"

definition child_fk_ccu :: "constraint_column_usage_row list" where
  "child_fk_ccu =
     [\<lparr>ccu_constraint_name = ''child_fk'', ccu_table_schema = ''public'',
       ccu_table_name = ''parent'', ccu_column_name = ''x''\<rparr>,
      \<lparr>ccu_constraint_name = ''child_fk'', ccu_table_schema = ''public'',
       ccu_table_name = ''parent'', ccu_column_name = ''y''\<rparr>]"

text \<open>
  A database \<^verbatim>\<open>shop\<close> with the schema \<^verbatim>\<open>public\<close>, the tables \<^verbatim>\<open>orders\<close> and
  \<^verbatim>\<open>users\<close> and the views \<^verbatim>\<open>active_users\<close> and \<^verbatim>\<open>recent_orders\<close>. The column
  query is refused for \<^verbatim>\<open>orders\<close> and the dependency query for \<^verbatim>\<open>recent_orders\<close>;
  \<^verbatim>\<open>users\<close> has one column, one primary key and no index row.
\<close>

definition public_schema_row :: cells where
  "public_schema_row =
     [(''schema_name'', PStr ''public''), (''schema_owner'', PStr ''postgres''),
      (''schema_type'', PStr ''user'')]"

definition orders_row :: cells where
  "orders_row =
     [(''table_schema'', PStr ''public''), (''table_name'', PStr ''orders''),
      (''table_size'', PStr ''16 kB''), (''estimated_rows'', PInt 120),
      (''table_comment'', PNone)]"

definition users_row :: cells where
  "users_row =
     [(''table_schema'', PStr ''public''), (''table_name'', PStr ''users''),
      (''table_size'', PStr ''8192 bytes''), (''estimated_rows'', PInt 3),
      (''table_comment'', PStr ''accounts'')]"

definition users_id_column_row :: cells where
  "users_id_column_row =
     [(''column_name'', PStr ''id''), (''data_type'', PStr ''integer''),
      (''is_nullable'', PStr ''NO''), (''column_default'', PNone),
      (''ordinal_position'', PInt 1), (''character_maximum_length'', PNone),
      (''numeric_precision'', PInt 32), (''numeric_scale'', PInt 0),
      (''column_comment'', PStr ''key'')]"

definition users_pkey_row :: cells where
  "users_pkey_row =
     [(''constraint_name'', PStr ''users_pkey''), (''constraint_type'', PStr ''PRIMARY KEY''),
      (''column_name'', PStr ''id''), (''foreign_table_schema'', PNone),
      (''foreign_table_name'', PNone), (''foreign_column_name'', PNone)]"

definition active_users_row :: cells where
  "active_users_row =
     [(''table_schema'', PStr ''public''), (''table_name'', PStr ''active_users''),
      (''view_definition'', PStr ''SELECT id FROM users''), (''view_comment'', PNone)]"

definition recent_orders_row :: cells where
  "recent_orders_row =
     [(''table_schema'', PStr ''public''), (''table_name'', PStr ''recent_orders''),
      (''view_definition'', PStr ''SELECT 1''), (''view_comment'', PNone)]"

definition users_dependency_row :: cells where
  "users_dependency_row =
     [(''source_schema'', PStr ''public''), (''source_table'', PStr ''users''),
      (''source_type'', PStr ''r'')]"

definition shop_driver :: sql_driver where
  "shop_driver q params =
     (if q = SchemasQ then Inr (Some [public_schema_row])
      else if q = TablesQ then Inr (Some [orders_row, users_row])
      else if q = ViewsQ then Inr (Some [active_users_row, recent_orders_row])
      else if q = ColumnsQ \<and> params = [PStr ''public'', PStr ''orders'']
        then Inl (ExecError ''permission denied for table orders'')
      else if q = ColumnsQ then Inr (Some [users_id_column_row])
      else if q = ConstraintsQ \<and> params = [PStr ''public'', PStr ''users'']
        then Inr (Some [users_pkey_row])
      else if q = DependenciesQ \<and> params = [PStr ''public'', PStr ''recent_orders'']
        then Inl (ExecError ''statement timeout'')
      else if q = DependenciesQ then Inr (Some [users_dependency_row])
      else Inr None)"

definition shop :: "string \<Rightarrow> exn + sql_driver" where
  "shop database_name = Inr shop_driver"

text \<open>A database that cannot be reached, one whose schema enumeration is refused, and
  one whose entity listings are refused.\<close>

definition unreachable :: "string \<Rightarrow> exn + sql_driver" where
  "unreachable database_name = Inl (ExecError ''connection refused'')"

definition no_schemata_driver :: sql_driver where
  "no_schemata_driver q params =
     (if q = SchemasQ then Inl (ExecError ''permission denied for schemata'')
      else Inr (Some []))"

definition no_listing_driver :: sql_driver where
  "no_listing_driver q params =
     (if q = SchemasQ then Inr (Some [public_schema_row])
      else Inl (ExecError ''permission denied for tables''))"

text \<open>A database with the table \<^verbatim>\<open>users\<close> and the view \<^verbatim>\<open>active_users\<close> whose
  collector queries all succeed with no rows: the column query with an empty list, the
  others with \<^verbatim>\<open>None\<close>.\<close>

definition bare_driver :: sql_driver where
  "bare_driver q params =
     (if q = SchemasQ then Inr (Some [public_schema_row])
      else if q = TablesQ then Inr (Some [users_row])
      else if q = ViewsQ then Inr (Some [active_users_row])
      else if q = ColumnsQ then Inr (Some [])
      else Inr None)"

definition bare :: "string \<Rightarrow> exn + sql_driver" where
  "bare database_name = Inr bare_driver"

text \<open>
  The catalog rows of \<^verbatim>\<open>CONSTRAINT users_age_check CHECK (age >= 0)\<close> on
  \<^verbatim>\<open>public.users\<close>: a check constraint has no row in \<^verbatim>\<open>key_column_usage\<close>, so the
  left join leaves \<^verbatim>\<open>column_name\<close> null.
\<close>

definition age_check_tc :: "table_constraints_row list" where
  "age_check_tc =
     [\<lparr>tc_constraint_name = ''users_age_check'', tc_constraint_type = ''CHECK'',
       tc_table_schema = ''public'', tc_table_name = ''users''\<rparr>]"

text \<open>The rows of a primary key over two columns and of a check constraint, as the
  constraint query returns them.\<close>

definition pk_a_row :: cells where
  "pk_a_row =
     [(''constraint_name'', PStr ''t_pkey''), (''constraint_type'', PStr ''PRIMARY KEY''),
      (''column_name'', PStr ''a''), (''foreign_table_schema'', PNone),
      (''foreign_table_name'', PNone), (''foreign_column_name'', PNone)]"

definition pk_b_row :: cells where
  "pk_b_row =
     [(''constraint_name'', PStr ''t_pkey''), (''constraint_type'', PStr ''PRIMARY KEY''),
      (''column_name'', PStr ''b''), (''foreign_table_schema'', PNone),
      (''foreign_table_name'', PNone), (''foreign_column_name'', PNone)]"

definition check_row :: cells where
  "check_row =
     [(''constraint_name'', PStr ''t_check''), (''constraint_type'', PStr ''CHECK''),
      (''column_name'', PNone), (''foreign_table_schema'', PNone),
      (''foreign_table_name'', PNone), (''foreign_column_name'', PNone)]"

section \<open>Properties\<close>

subsection \<open>Auxiliary facts about sequencing and the entity loops\<close>

lemma ebind_eq_Inr: "(ebind m f = Inr y) = (\<exists>x. m = Inr x \<and> f x = Inr y)"
  by (cases m) auto

lemma ebind_eq_Inl: "(ebind m f = Inl e) = (m = Inl e \<or> (\<exists>x. m = Inr x \<and> f x = Inl e))"
  by (cases m) auto

lemma getitem_has_key: "has_key r k \<Longrightarrow> \<exists>v. getitem r k = Inr v"
  by (auto simp: has_key_def getitem_def)

lemma tables_loop_listed:
  "list_all listed rows \<Longrightarrow>
   tables_loop d acc rows = Inr (acc @ List.map_filter (table_record d) rows)"
proof (induction rows arbitrary: acc)
  case Nil
  then show ?case by (simp add: map_filter_simps)
next
  case (Cons row rows)
  from Cons.prems have l: "listed row" and ls: "list_all listed rows" by simp_all
  from l obtain s n where s: "getitem row ''table_schema'' = Inr s"
    and n: "getitem row ''table_name'' = Inr n"
    using getitem_has_key unfolding listed_def by blast
  show ?case
  proof (cases "table_info d row s n")
    case (Inl e)
    then show ?thesis using s n Cons.IH[OF ls]
      by (simp add: table_record_def map_filter_simps)
  next
    case (Inr ti)
    then show ?thesis using s n Cons.IH[OF ls]
      by (simp add: table_record_def map_filter_simps)
  qed
qed

lemma views_loop_listed:
  "list_all listed rows \<Longrightarrow>
   views_loop d acc rows = Inr (acc @ List.map_filter (view_record d) rows)"
proof (induction rows arbitrary: acc)
  case Nil
  then show ?case by (simp add: map_filter_simps)
next
  case (Cons row rows)
  from Cons.prems have l: "listed row" and ls: "list_all listed rows" by simp_all
  from l obtain s n where s: "getitem row ''table_schema'' = Inr s"
    and n: "getitem row ''table_name'' = Inr n"
    using getitem_has_key unfolding listed_def by blast
  show ?case
  proof (cases "view_info d row s n")
    case (Inl e)
    then show ?thesis using s n Cons.IH[OF ls]
      by (simp add: view_record_def map_filter_simps)
  next
    case (Inr vi)
    then show ?thesis using s n Cons.IH[OF ls]
      by (simp add: view_record_def map_filter_simps)
  qed
qed

lemma tables_report_of_listing:
  assumes "gd db = Inr d" and "d SchemasQ [] = Inr srows" and "d TablesQ [] = Inr trows"
    and "rows_of trows \<noteq> []" and "list_all listed (rows_of trows)"
  shows "get_tables_impl gd db =
           tables_report db (schemas_of srows) (List.map_filter (table_record d) (rows_of trows))"
proof -
  have t: "rows_truthy trows" using assms(4) by (cases trows) auto
  show ?thesis
    using assms(1-3) t tables_loop_listed[OF assms(5), of d "[]"]
    by (simp add: get_tables_impl_def tables_try_def tables_report_def format_text_response_def)
qed

lemma views_report_of_listing:
  assumes "gd db = Inr d" and "d SchemasQ [] = Inr srows" and "d ViewsQ [] = Inr vrows"
    and "rows_of vrows \<noteq> []" and "list_all listed (rows_of vrows)"
  shows "get_views_impl gd db =
           views_report db (schemas_of srows) (List.map_filter (view_record d) (rows_of vrows))"
proof -
  have t: "rows_truthy vrows" using assms(4) by (cases vrows) auto
  show ?thesis
    using assms(1-3) t views_loop_listed[OF assms(5), of d "[]"]
    by (simp add: get_views_impl_def views_try_def views_report_def format_text_response_def)
qed

lemma in_set_map_filter:
  "y \<in> set (List.map_filter f xs) \<longleftrightarrow> (\<exists>x \<in> set xs. f x = Some y)"
  by (induction xs) (auto split: option.splits)

lemma table_info_fails:
  assumes "table_collector_fails d s n"
  shows "\<exists>e. table_info d row s n = Inl e"
proof (cases "table_info d row s n")
  case (Inl e) then show ?thesis by blast
next
  case (Inr ti)
  then have "\<not> isl (d ColumnsQ [s, n]) \<and> \<not> isl (d ConstraintsQ [s, n]) \<and> \<not> isl (d IndexesQ [s, n])"
    by (auto simp: table_info_def collect_columns_def collect_constraints_def
        collect_indexes_def ebind_eq_Inr)
  with assms show ?thesis by (simp add: table_collector_fails_def)
qed

lemma view_info_fails:
  assumes "view_collector_fails d s n"
  shows "\<exists>e. view_info d row s n = Inl e"
proof (cases "view_info d row s n")
  case (Inl e) then show ?thesis by blast
next
  case (Inr vi)
  then have "\<not> isl (d ColumnsQ [s, n]) \<and> \<not> isl (d DependenciesQ [s, n])"
    by (auto simp: view_info_def collect_columns_def collect_dependencies_def ebind_eq_Inr)
  with assms show ?thesis by (simp add: view_collector_fails_def)
qed

lemma table_record_names:
  "table_record d row = Some rec \<Longrightarrow>
   \<exists>s n. getitem row ''table_schema'' = Inr s \<and> getitem row ''table_name'' = Inr n
     \<and> table_info d row s n = Inr rec \<and> names_entity s n rec"
  by (auto simp: table_record_def table_info_def names_entity_def ebind_eq_Inr split: sum.splits)

lemma view_record_names:
  "view_record d row = Some rec \<Longrightarrow>
   \<exists>s n. getitem row ''table_schema'' = Inr s \<and> getitem row ''table_name'' = Inr n
     \<and> view_info d row s n = Inr rec \<and> names_entity s n rec"
  by (auto simp: view_record_def view_info_def names_entity_def ebind_eq_Inr split: sum.splits)

lemma names_entity_unique:
  "names_entity s n rec \<Longrightarrow> names_entity s' n' rec \<Longrightarrow> s' = s \<and> n' = n"
  by (auto simp: names_entity_def)

lemma failed_table_absent:
  assumes "table_collector_fails d s n"
  shows "list_all (\<lambda>rec. \<not> names_entity s n rec) (List.map_filter (table_record d) rows)"
proof -
  have "\<not> names_entity s n rec" if "table_record d row = Some rec" for row rec
  proof
    assume ne: "names_entity s n rec"
    from table_record_names[OF that] obtain s' n' where
      ti: "table_info d row s' n' = Inr rec" and ne': "names_entity s' n' rec" by blast
    from names_entity_unique[OF ne ne'] ti have "table_info d row s n = Inr rec" by simp
    with table_info_fails[OF assms, of row] show False by auto
  qed
  then show ?thesis
    by (auto simp: list_all_iff in_set_map_filter)
qed

lemma failed_view_absent:
  assumes "view_collector_fails d s n"
  shows "list_all (\<lambda>rec. \<not> names_entity s n rec) (List.map_filter (view_record d) rows)"
proof -
  have "\<not> names_entity s n rec" if "view_record d row = Some rec" for row rec
  proof
    assume ne: "names_entity s n rec"
    from view_record_names[OF that] obtain s' n' where
      vi: "view_info d row s' n' = Inr rec" and ne': "names_entity s' n' rec" by blast
    from names_entity_unique[OF ne ne'] vi have "view_info d row s n = Inr rec" by simp
    with view_info_fails[OF assms, of row] show False by auto
  qed
  then show ?thesis
    by (auto simp: list_all_iff in_set_map_filter)
qed

text \<open>The record of a row is determined by the row and by the answers to the row's own
  queries.\<close>

lemma table_record_own_queries:
  assumes "getitem row ''table_schema'' = Inr s" and "getitem row ''table_name'' = Inr n"
    and "\<And>q. d' q [s, n] = d q [s, n]"
  shows "table_record d' row = table_record d row"
  using assms
  by (simp add: table_record_def table_info_def collect_columns_def collect_constraints_def
      collect_indexes_def)

lemma view_record_own_queries:
  assumes "getitem row ''table_schema'' = Inr s" and "getitem row ''table_name'' = Inr n"
    and "\<And>q. d' q [s, n] = d q [s, n]"
  shows "view_record d' row = view_record d row"
  using assms
  by (simp add: view_record_def view_info_def collect_columns_def collect_dependencies_def)

subsection \<open>The report of an empty listing\<close>

text \<open>
  C1. The claim asks for a \<^verbatim>\<open>total\<close> field in every report, equal to the length of
  the entity list, and \<^verbatim>\<open>total = 0\<close> for an empty listing. The code returns early
  when the listing has no rows: the report then holds \<^verbatim>\<open>database\<close>, \<^verbatim>\<open>schemas\<close> and
  the empty entity list, and no \<^verbatim>\<open>total_tables\<close> (\<^verbatim>\<open>total_views\<close>) key at all.
\<close>

theorem empty_listing_report_has_no_total:
  "get_tables_impl (\<lambda>db. Inr empty_database) ''shop'' =
     TextResponse (PDict [(''database'', PStr ''shop''), (''schemas'', PList []),
                          (''tables'', PList [])])
   \<and> get_views_impl (\<lambda>db. Inr empty_database) ''shop'' =
     TextResponse (PDict [(''database'', PStr ''shop''), (''schemas'', PList []),
                          (''views'', PList [])])"
  by (simp add: get_tables_impl_def tables_try_def get_views_impl_def views_try_def
      empty_database_def schemas_of_def format_text_response_def)

subsection \<open>Composite foreign keys\<close>

text \<open>
  C4. The claim asks for a columns list of length N for a foreign key with N
  referencing columns. The constraint query joins \<^verbatim>\<open>key_column_usage\<close> and
  \<^verbatim>\<open>constraint_column_usage\<close> to the constraint by name only, so a foreign key over
  two columns comes back as four rows and the descriptor lists four columns, each
  referencing column twice. (The reference block is the one of the first row.)
\<close>

theorem composite_foreign_key_columns_repeated:
  "constraints_list
     (Some (constraints_query child_fk_tc child_fk_kcu child_fk_ccu ''public'' ''child'')) =
   Inr [PDict [(''name'', PStr ''child_fk''), (''type'', PStr ''FOREIGN KEY''),
               (''columns'', PList [PStr ''a'', PStr ''a'', PStr ''b'', PStr ''b'']),
               (''references'', PDict [(''schema'', PStr ''public''),
                                       (''table'', PStr ''parent''),
                                       (''column'', PStr ''x'')])]]"
  by (simp add: constraints_list_def constraints_query_def left_join_def con_step_def
      con_enter_def getitem_def dict_get_def child_fk_tc_def child_fk_kcu_def child_fk_ccu_def)

subsection \<open>Type details and comments of a column\<close>

text \<open>
  C6. The claim asks for \<^verbatim>\<open>scale\<close> to be present whenever the catalog reports a
  non-null \<^verbatim>\<open>numeric_scale\<close>. The code tests the cell's truth value, so the scale 0
  of an integer column, which is not null, is left out (while its precision is kept).
\<close>

theorem zero_scale_is_omitted:
  "getitem integer_column_row ''numeric_scale'' = Inr (PInt 0)
   \<and> col_info integer_column_row =
       Inr (PDict [(''name'', PStr ''id''), (''data_type'', PStr ''integer''),
                   (''is_nullable'', PStr ''NO''), (''default'', PNone),
                   (''position'', PInt 1), (''comment'', PStr ''surrogate key''),
                   (''precision'', PInt 32)])"
  by (simp add: integer_column_row_def col_info_def getitem_def dict_get_def add_detail_def)

text \<open>
  C7. The claim asks for the empty string as the comment of a column whose
  \<^verbatim>\<open>column_comment\<close> is null. The code reads the cell with
  \<^verbatim>\<open>get("column_comment", "")\<close>, whose default only applies to a missing key: the key
  is there with the value \<^verbatim>\<open>None\<close>, and \<^verbatim>\<open>None\<close> is what the descriptor carries.
\<close>

theorem null_comment_stays_null:
  "getitem uncommented_column_row ''column_comment'' = Inr PNone
   \<and> col_info uncommented_column_row =
       Inr (PDict [(''name'', PStr ''email''), (''data_type'', PStr ''text''),
                   (''is_nullable'', PStr ''NO''), (''default'', PNone),
                   (''position'', PInt 2), (''comment'', PNone)])"
  by (simp add: uncommented_column_row_def col_info_def getitem_def dict_get_def
      add_detail_def)

subsection \<open>The schema list\<close>

text \<open>
  C8. The claim asks that only schemas whose name begins with the literal prefix
  \<^verbatim>\<open>pg_\<close> (and \<^verbatim>\<open>information_schema\<close>) are excluded. In the pattern \<^verbatim>\<open>'pg_%'\<close> of
  the query the underscore is the one-character wildcard, so the user schema
  \<^verbatim>\<open>pgboss\<close> is excluded as well: of the three schemas only \<^verbatim>\<open>public\<close> is listed.
\<close>

theorem schema_named_pgboss_is_excluded:
  "schemas_of (Some (schemas_query three_schemata)) =
     [PDict [(''schema_name'', PStr ''public''), (''schema_owner'', PStr ''postgres''),
             (''schema_type'', PStr ''user'')]]"
  by (simp add: schemas_of_def schemas_query_def three_schemata_def)

subsection \<open>Failures at the top level and below it\<close>

text \<open>
  C3. When the driver cannot be obtained, or the schema enumeration or the entity
  listing raises, the operation returns the single error response with the text of the
  exception, and no report. Nothing else surfaces: once the driver, the schema
  enumeration and the listing have succeeded (the rows of the listing carrying the two
  labels the query selects), the operation returns a report, whatever the collectors
  do and however many rows there are.
\<close>

theorem top_level_failure_aborts:
  "(gd db = Inl e \<longrightarrow>
      get_tables_impl gd db = ErrorResponse (exn_str e)
      \<and> get_views_impl gd db = ErrorResponse (exn_str e))
   \<and> (gd db = Inr d \<and> d SchemasQ [] = Inl e \<longrightarrow>
      get_tables_impl gd db = ErrorResponse (exn_str e)
      \<and> get_views_impl gd db = ErrorResponse (exn_str e))
   \<and> (gd db = Inr d \<and> d SchemasQ [] = Inr srows \<and> d TablesQ [] = Inl e \<longrightarrow>
      get_tables_impl gd db = ErrorResponse (exn_str e))
   \<and> (gd db = Inr d \<and> d SchemasQ [] = Inr srows \<and> d ViewsQ [] = Inl e \<longrightarrow>
      get_views_impl gd db = ErrorResponse (exn_str e))
   \<and> (gd db = Inr d \<and> d SchemasQ [] = Inr srows \<and> d TablesQ [] = Inr trows
       \<and> list_all listed (rows_of trows) \<longrightarrow>
      (\<exists>doc. get_tables_impl gd db = TextResponse doc))
   \<and> (gd db = Inr d \<and> d SchemasQ [] = Inr srows \<and> d ViewsQ [] = Inr vrows
       \<and> list_all listed (rows_of vrows) \<longrightarrow>
      (\<exists>doc. get_views_impl gd db = TextResponse doc))"
proof -
  have driver: "get_tables_impl gd db = ErrorResponse (exn_str e)
      \<and> get_views_impl gd db = ErrorResponse (exn_str e)" if "gd db = Inl e"
    using that
    by (simp add: get_tables_impl_def tables_try_def get_views_impl_def views_try_def
        format_error_response_def)
  have schemata: "get_tables_impl gd db = ErrorResponse (exn_str e)
      \<and> get_views_impl gd db = ErrorResponse (exn_str e)"
    if "gd db = Inr d" and "d SchemasQ [] = Inl e"
    using that
    by (simp add: get_tables_impl_def tables_try_def get_views_impl_def views_try_def
        format_error_response_def)
  have tables: "get_tables_impl gd db = ErrorResponse (exn_str e)"
    if "gd db = Inr d" and "d SchemasQ [] = Inr srows" and "d TablesQ [] = Inl e"
    using that
    by (simp add: get_tables_impl_def tables_try_def format_error_response_def)
  have views: "get_views_impl gd db = ErrorResponse (exn_str e)"
    if "gd db = Inr d" and "d SchemasQ [] = Inr srows" and "d ViewsQ [] = Inl e"
    using that
    by (simp add: get_views_impl_def views_try_def format_error_response_def)
  have tables_ok: "\<exists>doc. get_tables_impl gd db = TextResponse doc"
    if "gd db = Inr d" and "d SchemasQ [] = Inr srows" and "d TablesQ [] = Inr trows"
      and "list_all listed (rows_of trows)"
  proof (cases "rows_of trows = []")
    case True
    then have "\<not> rows_truthy trows" by (cases trows) auto
    with that(1-3) show ?thesis
      by (simp add: get_tables_impl_def tables_try_def format_text_response_def)
  next
    case False
    from tables_report_of_listing[of gd db d srows trows, OF that(1-3) False that(4)] show ?thesis
      by (simp add: tables_report_def)
  qed
  have views_ok: "\<exists>doc. get_views_impl gd db = TextResponse doc"
    if "gd db = Inr d" and "d SchemasQ [] = Inr srows" and "d ViewsQ [] = Inr vrows"
      and "list_all listed (rows_of vrows)"
  proof (cases "rows_of vrows = []")
    case True
    then have "\<not> rows_truthy vrows" by (cases vrows) auto
    with that(1-3) show ?thesis
      by (simp add: get_views_impl_def views_try_def format_text_response_def)
  next
    case False
    from views_report_of_listing[of gd db d srows vrows, OF that(1-3) False that(4)] show ?thesis
      by (simp add: views_report_def)
  qed
  from driver schemata tables views tables_ok views_ok show ?thesis by blast
qed

theorem top_level_failure_aborts_witness:
  "get_tables_impl unreachable ''shop'' = ErrorResponse ''connection refused''
   \<and> get_views_impl unreachable ''shop'' = ErrorResponse ''connection refused''
   \<and> get_tables_impl (\<lambda>db. Inr no_schemata_driver) ''shop'' =
        ErrorResponse ''permission denied for schemata''
   \<and> get_views_impl (\<lambda>db. Inr no_schemata_driver) ''shop'' =
        ErrorResponse ''permission denied for schemata''
   \<and> get_tables_impl (\<lambda>db. Inr no_listing_driver) ''shop'' =
        ErrorResponse ''permission denied for tables''
   \<and> get_views_impl (\<lambda>db. Inr no_listing_driver) ''shop'' =
        ErrorResponse ''permission denied for tables''
   \<and> table_collector_fails shop_driver (PStr ''public'') (PStr ''orders'')
   \<and> view_collector_fails shop_driver (PStr ''public'') (PStr ''recent_orders'')
   \<and> (\<exists>doc. get_tables_impl shop ''shop'' = TextResponse doc)
   \<and> (\<exists>doc. get_views_impl shop ''shop'' = TextResponse doc)"
proof -
  have u: "unreachable ''shop'' = Inl (ExecError ''connection refused'')"
    by (simp add: unreachable_def)
  have s: "no_schemata_driver SchemasQ [] = Inl (ExecError ''permission denied for schemata'')"
    by (simp add: no_schemata_driver_def)
  have l: "no_listing_driver SchemasQ [] = Inr (Some [public_schema_row])"
    "no_listing_driver TablesQ [] = Inl (ExecError ''permission denied for tables'')"
    "no_listing_driver ViewsQ [] = Inl (ExecError ''permission denied for tables'')"
    by (simp_all add: no_listing_driver_def)
  have ok: "shop ''shop'' = Inr shop_driver"
    "shop_driver SchemasQ [] = Inr (Some [public_schema_row])"
    "shop_driver TablesQ [] = Inr (Some [orders_row, users_row])"
    "shop_driver ViewsQ [] = Inr (Some [active_users_row, recent_orders_row])"
    by (simp_all add: shop_def shop_driver_def)
  have wf: "list_all listed (rows_of (Some [orders_row, users_row]))"
    "list_all listed (rows_of (Some [active_users_row, recent_orders_row]))"
    by (simp_all add: listed_def has_key_def orders_row_def users_row_def
        active_users_row_def recent_orders_row_def)
  have f: "table_collector_fails shop_driver (PStr ''public'') (PStr ''orders'')"
    "view_collector_fails shop_driver (PStr ''public'') (PStr ''recent_orders'')"
    by (simp_all add: table_collector_fails_def view_collector_fails_def shop_driver_def)
  note a = top_level_failure_aborts[of unreachable "''shop''" "ExecError ''connection refused''"]
  note b = top_level_failure_aborts[of "\<lambda>db. Inr no_schemata_driver" "''shop''"
      "ExecError ''permission denied for schemata''" no_schemata_driver]
  note c = top_level_failure_aborts[of "\<lambda>db. Inr no_listing_driver" "''shop''"
      "ExecError ''permission denied for tables''" no_listing_driver
      "Some [public_schema_row]"]
  note d = top_level_failure_aborts[of shop "''shop''" _ shop_driver
      "Some [public_schema_row]" "Some [orders_row, users_row]"
      "Some [active_users_row, recent_orders_row]"]
  from a u b s c l d ok wf f show ?thesis by simp
qed

text \<open>
  C2. When a collector query for a listed entity \<open>E = (s, n)\<close> raises, the operation
  still succeeds. Its entity list is, in listing order, the complete record of every row
  whose pass through the loop succeeded, and \<^verbatim>\<open>total\<close> is the length of that list;
  the pass for \<open>E\<close> yields nothing and no record in the list names \<open>(s, n)\<close>. The
  record of any row depends on that row and on the answers to its own queries only, so
  the failure for \<open>E\<close> leaves the other records as they are.
\<close>

theorem failed_entity_is_dropped_alone:
  "(gd db = Inr d \<and> d SchemasQ [] = Inr srows \<and> d TablesQ [] = Inr trows
    \<and> list_all listed (rows_of trows) \<and> E \<in> set (rows_of trows)
    \<and> getitem E ''table_schema'' = Inr s \<and> getitem E ''table_name'' = Inr n
    \<and> table_collector_fails d s n \<longrightarrow>
      get_tables_impl gd db =
        tables_report db (schemas_of srows) (List.map_filter (table_record d) (rows_of trows))
      \<and> table_record d E = None
      \<and> list_all (\<lambda>rec. \<not> names_entity s n rec)
           (List.map_filter (table_record d) (rows_of trows))
      \<and> (\<forall>d' row s' n'. getitem row ''table_schema'' = Inr s'
            \<and> getitem row ''table_name'' = Inr n' \<and> (\<forall>q. d' q [s', n'] = d q [s', n'])
            \<longrightarrow> table_record d' row = table_record d row))
   \<and> (gd db = Inr d \<and> d SchemasQ [] = Inr srows \<and> d ViewsQ [] = Inr vrows
    \<and> list_all listed (rows_of vrows) \<and> E \<in> set (rows_of vrows)
    \<and> getitem E ''table_schema'' = Inr s \<and> getitem E ''table_name'' = Inr n
    \<and> view_collector_fails d s n \<longrightarrow>
      get_views_impl gd db =
        views_report db (schemas_of srows) (List.map_filter (view_record d) (rows_of vrows))
      \<and> view_record d E = None
      \<and> list_all (\<lambda>rec. \<not> names_entity s n rec)
           (List.map_filter (view_record d) (rows_of vrows))
      \<and> (\<forall>d' row s' n'. getitem row ''table_schema'' = Inr s'
            \<and> getitem row ''table_name'' = Inr n' \<and> (\<forall>q. d' q [s', n'] = d q [s', n'])
            \<longrightarrow> view_record d' row = view_record d row))"
proof (intro conjI impI; (elim conjE)?)
  assume a: "gd db = Inr d" "d SchemasQ [] = Inr srows" "d TablesQ [] = Inr trows"
    "list_all listed (rows_of trows)" "E \<in> set (rows_of trows)"
    "getitem E ''table_schema'' = Inr s" "getitem E ''table_name'' = Inr n"
    "table_collector_fails d s n"
  from a(5) have ne: "rows_of trows \<noteq> []" by auto
  show "get_tables_impl gd db =
      tables_report db (schemas_of srows) (List.map_filter (table_record d) (rows_of trows))"
    by (rule tables_report_of_listing[of gd db d srows trows, OF a(1-3) ne a(4)])
  show "table_record d E = None"
    using a(6,7) table_info_fails[OF a(8), of E] by (auto simp: table_record_def)
  show "list_all (\<lambda>rec. \<not> names_entity s n rec)
      (List.map_filter (table_record d) (rows_of trows))"
    by (rule failed_table_absent[OF a(8)])
  show "\<forall>d' row s' n'. getitem row ''table_schema'' = Inr s'
      \<and> getitem row ''table_name'' = Inr n' \<and> (\<forall>q. d' q [s', n'] = d q [s', n'])
      \<longrightarrow> table_record d' row = table_record d row"
    using table_record_own_queries by blast
next
  assume a: "gd db = Inr d" "d SchemasQ [] = Inr srows" "d ViewsQ [] = Inr vrows"
    "list_all listed (rows_of vrows)" "E \<in> set (rows_of vrows)"
    "getitem E ''table_schema'' = Inr s" "getitem E ''table_name'' = Inr n"
    "view_collector_fails d s n"
  from a(5) have ne: "rows_of vrows \<noteq> []" by auto
  show "get_views_impl gd db =
      views_report db (schemas_of srows) (List.map_filter (view_record d) (rows_of vrows))"
    by (rule views_report_of_listing[of gd db d srows vrows, OF a(1-3) ne a(4)])
  show "view_record d E = None"
    using a(6,7) view_info_fails[OF a(8), of E] by (auto simp: view_record_def)
  show "list_all (\<lambda>rec. \<not> names_entity s n rec)
      (List.map_filter (view_record d) (rows_of vrows))"
    by (rule failed_view_absent[OF a(8)])
  show "\<forall>d' row s' n'. getitem row ''table_schema'' = Inr s'
      \<and> getitem row ''table_name'' = Inr n' \<and> (\<forall>q. d' q [s', n'] = d q [s', n'])
      \<longrightarrow> view_record d' row = view_record d row"
    using view_record_own_queries by blast
qed

theorem failed_entity_is_dropped_alone_witness:
  "orders_row \<in> set [orders_row, users_row]
   \<and> table_collector_fails shop_driver (PStr ''public'') (PStr ''orders'')
   \<and> get_tables_impl shop ''shop'' =
       tables_report ''shop'' [PDict public_schema_row]
         [PDict [(''schema'', PStr ''public''), (''name'', PStr ''users''),
                 (''type'', PStr ''table''), (''comment'', PStr ''accounts''),
                 (''size'', PStr ''8192 bytes''), (''estimated_rows'', PInt 3),
                 (''columns'', PList [PDict
                    [(''name'', PStr ''id''), (''data_type'', PStr ''integer''),
                     (''is_nullable'', PStr ''NO''), (''default'', PNone),
                     (''position'', PInt 1), (''comment'', PStr ''key''),
                     (''precision'', PInt 32)]]),
                 (''constraints'', PList [PDict
                    [(''name'', PStr ''users_pkey''), (''type'', PStr ''PRIMARY KEY''),
                     (''columns'', PList [PStr ''id''])]]),
                 (''indexes'', PList [])]]
   \<and> table_record shop_driver orders_row = None
   \<and> recent_orders_row \<in> set [active_users_row, recent_orders_row]
   \<and> view_collector_fails shop_driver (PStr ''public'') (PStr ''recent_orders'')
   \<and> get_views_impl shop ''shop'' =
       views_report ''shop'' [PDict public_schema_row]
         [PDict [(''schema'', PStr ''public''), (''name'', PStr ''active_users''),
                 (''type'', PStr ''view''), (''comment'', PNone),
                 (''definition'', PStr ''SELECT id FROM users''),
                 (''columns'', PList [PDict
                    [(''name'', PStr ''id''), (''data_type'', PStr ''integer''),
                     (''is_nullable'', PStr ''NO''), (''default'', PNone),
                     (''position'', PInt 1), (''comment'', PStr ''key''),
                     (''precision'', PInt 32)]]),
                 (''dependencies'', PList [PDict
                    [(''schema'', PStr ''public''), (''name'', PStr ''users''),
                     (''type'', PStr ''table'')]])]]
   \<and> view_record shop_driver recent_orders_row = None"
proof -
  have ok: "shop ''shop'' = Inr shop_driver"
    "shop_driver SchemasQ [] = Inr (Some [public_schema_row])"
    "shop_driver TablesQ [] = Inr (Some [orders_row, users_row])"
    "shop_driver ViewsQ [] = Inr (Some [active_users_row, recent_orders_row])"
    by (simp_all add: shop_def shop_driver_def)
  have wf: "list_all listed (rows_of (Some [orders_row, users_row]))"
    "list_all listed (rows_of (Some [active_users_row, recent_orders_row]))"
    by (simp_all add: listed_def has_key_def orders_row_def users_row_def
        active_users_row_def recent_orders_row_def)
  have k: "getitem orders_row ''table_schema'' = Inr (PStr ''public'')"
    "getitem orders_row ''table_name'' = Inr (PStr ''orders'')"
    "getitem recent_orders_row ''table_schema'' = Inr (PStr ''public'')"
    "getitem recent_orders_row ''table_name'' = Inr (PStr ''recent_orders'')"
    by (simp_all add: getitem_def orders_row_def recent_orders_row_def)
  have f: "table_collector_fails shop_driver (PStr ''public'') (PStr ''orders'')"
    "view_collector_fails shop_driver (PStr ''public'') (PStr ''recent_orders'')"
    by (simp_all add: table_collector_fails_def view_collector_fails_def shop_driver_def)
  have m: "orders_row \<in> set (rows_of (Some [orders_row, users_row]))"
    "recent_orders_row \<in> set (rows_of (Some [active_users_row, recent_orders_row]))"
    by simp_all
  have users: "table_record shop_driver users_row = Some
         (PDict [(''schema'', PStr ''public''), (''name'', PStr ''users''),
                 (''type'', PStr ''table''), (''comment'', PStr ''accounts''),
                 (''size'', PStr ''8192 bytes''), (''estimated_rows'', PInt 3),
                 (''columns'', PList [PDict
                    [(''name'', PStr ''id''), (''data_type'', PStr ''integer''),
                     (''is_nullable'', PStr ''NO''), (''default'', PNone),
                     (''position'', PInt 1), (''comment'', PStr ''key''),
                     (''precision'', PInt 32)]]),
                 (''constraints'', PList [PDict
                    [(''name'', PStr ''users_pkey''), (''type'', PStr ''PRIMARY KEY''),
                     (''columns'', PList [PStr ''id''])]]),
                 (''indexes'', PList [])])"
    by (simp add: table_record_def table_info_def collect_columns_def
        collect_constraints_def constraints_list_def collect_indexes_def shop_driver_def
        users_row_def users_id_column_row_def users_pkey_row_def col_info_def add_detail_def
        con_step_def con_enter_def getitem_def dict_get_def)
  have active: "view_record shop_driver active_users_row = Some
         (PDict [(''schema'', PStr ''public''), (''name'', PStr ''active_users''),
                 (''type'', PStr ''view''), (''comment'', PNone),
                 (''definition'', PStr ''SELECT id FROM users''),
                 (''columns'', PList [PDict
                    [(''name'', PStr ''id''), (''data_type'', PStr ''integer''),
                     (''is_nullable'', PStr ''NO''), (''default'', PNone),
                     (''position'', PInt 1), (''comment'', PStr ''key''),
                     (''precision'', PInt 32)]]),
                 (''dependencies'', PList [PDict
                    [(''schema'', PStr ''public''), (''name'', PStr ''users''),
                     (''type'', PStr ''table'')]])])"
    by (simp add: view_record_def view_info_def collect_columns_def
        collect_dependencies_def shop_driver_def active_users_row_def
        users_id_column_row_def users_dependency_row_def col_info_def add_detail_def
        dep_info_def dep_type_map_get_def getitem_def dict_get_def)
  note t = failed_entity_is_dropped_alone[of shop "''shop''" shop_driver
      "Some [public_schema_row]" "Some [orders_row, users_row]" orders_row
      "PStr ''public''" "PStr ''orders''" "Some [active_users_row, recent_orders_row]",
      THEN conjunct1, rule_format]
  note v = failed_entity_is_dropped_alone[of shop "''shop''" shop_driver
      "Some [public_schema_row]" "Some [orders_row, users_row]" recent_orders_row
      "PStr ''public''" "PStr ''recent_orders''" "Some [active_users_row, recent_orders_row]",
      THEN conjunct2, rule_format]
  have t': "get_tables_impl shop ''shop'' =
      tables_report ''shop'' (schemas_of (Some [public_schema_row]))
        (List.map_filter (table_record shop_driver) (rows_of (Some [orders_row, users_row])))
      \<and> table_record shop_driver orders_row = None"
    using t ok wf k f m by blast
  have v': "get_views_impl shop ''shop'' =
      views_report ''shop'' (schemas_of (Some [public_schema_row]))
        (List.map_filter (view_record shop_driver)
           (rows_of (Some [active_users_row, recent_orders_row])))
      \<and> view_record shop_driver recent_orders_row = None"
    using v ok wf k f m by blast
  from t' v' f users active show ?thesis
    by (simp add: schemas_of_def)
qed

subsection \<open>The kinds of dependencies\<close>

lemma dep_info_kind:
  assumes "dep_info r = Inr dep" and "relkind_filtered r"
  shows "field dep ''type'' = Some (PStr ''table'') \<or> field dep ''type'' = Some (PStr ''view'')
    \<or> field dep ''type'' = Some (PStr ''materialized view'')"
  using assms
  by (auto simp: dep_info_def relkind_filtered_def dep_type_map_get_def ebind_eq_Inr)

lemma dependencies_loop_elems:
  "dependencies_loop acc rows = Inr deps \<Longrightarrow> dep \<in> set deps \<Longrightarrow>
   dep \<in> set acc \<or> (\<exists>r \<in> set rows. dep_info r = Inr dep)"
proof (induction rows arbitrary: acc)
  case Nil
  then show ?case by simp
next
  case (Cons r rows)
  from Cons.prems(1) obtain di where di: "dep_info r = Inr di"
    and rest: "dependencies_loop (acc @ [di]) rows = Inr deps"
    by (auto simp: ebind_eq_Inr)
  from Cons.IH[OF rest Cons.prems(2)] di show ?case by auto
qed

lemma collect_dependencies_elems:
  assumes "collect_dependencies d s n = Inr deps" and "dep \<in> set deps"
  shows "\<exists>rows r. d DependenciesQ [s, n] = Inr rows \<and> r \<in> set (rows_of rows)
    \<and> dep_info r = Inr dep"
proof -
  from assms(1) obtain rows where q: "d DependenciesQ [s, n] = Inr rows"
    and l: "(if rows_truthy rows then dependencies_loop [] (rows_of rows) else Inr []) = Inr deps"
    by (auto simp: collect_dependencies_def ebind_eq_Inr)
  show ?thesis
  proof (cases "rows_truthy rows")
    case True
    with l have "dependencies_loop [] (rows_of rows) = Inr deps" by simp
    from dependencies_loop_elems[OF this assms(2)] q show ?thesis by auto
  next
    case False
    with l assms(2) show ?thesis by simp
  qed
qed

lemma view_info_dependencies:
  assumes "view_info d row s n = Inr v" and "field v ''dependencies'' = Some (PList deps)"
  shows "collect_dependencies d s n = Inr deps"
  using assms by (auto simp: view_info_def ebind_eq_Inr)

lemma views_loop_elems:
  "views_loop d acc rows = Inr vs \<Longrightarrow> v \<in> set vs \<Longrightarrow>
   v \<in> set acc \<or> (\<exists>row \<in> set rows. view_record d row = Some v)"
proof (induction rows arbitrary: acc)
  case Nil
  then show ?case by simp
next
  case (Cons row rows)
  from Cons.prems(1) obtain s n where s: "getitem row ''table_schema'' = Inr s"
    and n: "getitem row ''table_name'' = Inr n"
    and rest: "(case view_info d row s n of
         Inl e \<Rightarrow> views_loop d acc rows
       | Inr vi \<Rightarrow> views_loop d (acc @ [vi]) rows) = Inr vs"
    by (auto simp: ebind_eq_Inr)
  show ?case
  proof (cases "view_info d row s n")
    case (Inl e)
    with rest have "views_loop d acc rows = Inr vs" by simp
    from Cons.IH[OF this Cons.prems(2)] show ?thesis by auto
  next
    case (Inr vi)
    with rest have "views_loop d (acc @ [vi]) rows = Inr vs" by simp
    from Cons.IH[OF this Cons.prems(2)] Inr s n show ?thesis
      by (auto simp: view_record_def)
  qed
qed

lemma views_of_report:
  assumes "gd db = Inr d" and "get_views_impl gd db = TextResponse doc"
    and "field doc ''views'' = Some (PList vs)" and "v \<in> set vs"
  shows "\<exists>row. view_record d row = Some v"
proof -
  from assms(2) obtain r where r: "views_try gd db = Inr r" and rd: "r = TextResponse doc"
    by (auto simp: get_views_impl_def format_error_response_def split: sum.splits)
  from r assms(1) obtain srows vrows where
    body: "(if \<not> rows_truthy vrows
       then Inr (format_text_response (PDict
              [(''database'', PStr db),
               (''schemas'', PList (schemas_of srows)),
               (''views'', PList [])]))
       else
         ebind (views_loop d [] (rows_of vrows)) (\<lambda>views_info.
         Inr (format_text_response (PDict
              [(''database'', PStr db),
               (''schemas'', PList (schemas_of srows)),
               (''views'', PList views_info),
               (''total_views'', PInt (int (length views_info)))])))) = Inr r"
    by (auto simp: views_try_def ebind_eq_Inr)
  show ?thesis
  proof (cases "rows_truthy vrows")
    case False
    with body rd assms(3,4) show ?thesis
      by (auto simp: format_text_response_def)
  next
    case True
    with body rd assms(3) have "views_loop d [] (rows_of vrows) = Inr vs"
      by (auto simp: format_text_response_def ebind_eq_Inr)
    from views_loop_elems[OF this assms(4)] show ?thesis by auto
  qed
qed

text \<open>
  C10. In a report of \<^verbatim>\<open>_get_views_impl\<close>, every dependency of every view record
  has the kind \<^verbatim>\<open>table\<close>, \<^verbatim>\<open>view\<close> or \<^verbatim>\<open>materialized view\<close>, provided the rows
  the dependency query returns carry one of the kind codes \<^verbatim>\<open>r\<close>, \<^verbatim>\<open>v\<close>, \<^verbatim>\<open>m\<close> its
  filter lets through; the fallback \<^verbatim>\<open>unknown\<close> does not occur.
\<close>

theorem dependency_kind_is_never_unknown:
  assumes "gd db = Inr d"
    and "\<And>params rows. d DependenciesQ params = Inr rows \<Longrightarrow>
           list_all relkind_filtered (rows_of rows)"
    and "get_views_impl gd db = TextResponse doc"
    and "field doc ''views'' = Some (PList vs)" and "v \<in> set vs"
    and "field v ''dependencies'' = Some (PList deps)" and "dep \<in> set deps"
  shows "field dep ''type'' = Some (PStr ''table'') \<or> field dep ''type'' = Some (PStr ''view'')
    \<or> field dep ''type'' = Some (PStr ''materialized view'')"
proof -
  from views_of_report[OF assms(1,3,4,5)] obtain row where "view_record d row = Some v" by blast
  from view_record_names[OF this] obtain s n where "view_info d row s n = Inr v" by blast
  from view_info_dependencies[OF this assms(6)] have "collect_dependencies d s n = Inr deps" .
  from collect_dependencies_elems[OF this assms(7)] obtain rows r where
    q: "d DependenciesQ [s, n] = Inr rows" and r: "r \<in> set (rows_of rows)"
    and di: "dep_info r = Inr dep" by blast
  from assms(2)[OF q] r have "relkind_filtered r" by (simp add: list_all_iff)
  from dep_info_kind[OF di this] show ?thesis .
qed

theorem dependency_kind_is_never_unknown_witness:
  "relkind_filtered users_dependency_row
   \<and> (\<exists>doc vs v deps dep.
        get_views_impl shop ''shop'' = TextResponse doc
        \<and> field doc ''views'' = Some (PList vs) \<and> v \<in> set vs
        \<and> field v ''dependencies'' = Some (PList deps) \<and> dep \<in> set deps
        \<and> (field dep ''type'' = Some (PStr ''table'')
           \<or> field dep ''type'' = Some (PStr ''view'')
           \<or> field dep ''type'' = Some (PStr ''materialized view'')))"
proof -
  define dep where "dep = PDict [(''schema'', PStr ''public''), (''name'', PStr ''users''),
                     (''type'', PStr ''table'')]"
  define v where "v = PDict [(''schema'', PStr ''public''), (''name'', PStr ''active_users''),
                 (''type'', PStr ''view''), (''comment'', PNone),
                 (''definition'', PStr ''SELECT id FROM users''),
                 (''columns'', PList [PDict
                    [(''name'', PStr ''id''), (''data_type'', PStr ''integer''),
                     (''is_nullable'', PStr ''NO''), (''default'', PNone),
                     (''position'', PInt 1), (''comment'', PStr ''key''),
                     (''precision'', PInt 32)]]),
                 (''dependencies'', PList [dep])]"
  define doc where "doc = PDict [(''database'', PStr ''shop''),
                 (''schemas'', PList [PDict public_schema_row]),
                 (''views'', PList [v]), (''total_views'', PInt 1)]"
  have f: "relkind_filtered users_dependency_row"
    by (simp add: relkind_filtered_def users_dependency_row_def getitem_def)
  have g: "shop ''shop'' = Inr shop_driver" by (simp add: shop_def)
  have q: "list_all relkind_filtered (rows_of rows)"
    if "shop_driver DependenciesQ params = Inr rows" for params rows
    using that f by (auto simp: shop_driver_def split: if_splits)
  have r: "get_views_impl shop ''shop'' = TextResponse doc"
    by (simp add: get_views_impl_def views_try_def shop_def shop_driver_def schemas_of_def
        format_text_response_def view_info_def collect_columns_def
        collect_dependencies_def active_users_row_def recent_orders_row_def
        users_id_column_row_def users_dependency_row_def col_info_def add_detail_def
        dep_info_def dep_type_map_get_def getitem_def dict_get_def doc_def v_def dep_def)
  have a: "field doc ''views'' = Some (PList [v])" "v \<in> set [v]"
    "field v ''dependencies'' = Some (PList [dep])" "dep \<in> set [dep]"
    by (simp_all add: doc_def v_def)
  from dependency_kind_is_never_unknown[of shop "''shop''" shop_driver doc "[v]" v "[dep]" dep,
      OF g q r a]
  have "field dep ''type'' = Some (PStr ''table'') \<or> field dep ''type'' = Some (PStr ''view'')
    \<or> field dep ''type'' = Some (PStr ''materialized view'')" .
  with f r a show ?thesis by blast
qed

subsection \<open>Entities whose queries return no rows\<close>

lemma add_detail_total: "\<exists>c'. add_detail r label key c = Inr c'"
  by (auto simp: add_detail_def dict_get_def getitem_def split: option.splits)

lemma col_info_total:
  assumes "column_row_ok r"
  shows "\<exists>ci. col_info r = Inr ci"
proof -
  from assms obtain a b c e f where k: "getitem r ''column_name'' = Inr a"
    "getitem r ''data_type'' = Inr b" "getitem r ''is_nullable'' = Inr c"
    "getitem r ''column_default'' = Inr e" "getitem r ''ordinal_position'' = Inr f"
    by (auto simp: column_row_ok_def has_key_def getitem_def)
  obtain c1 where c1: "add_detail r ''character_maximum_length'' ''max_length''
              [(''name'', a), (''data_type'', b), (''is_nullable'', c),
               (''default'', e), (''position'', f),
               (''comment'', dict_get r ''column_comment'' (PStr []))] = Inr c1"
    using add_detail_total by blast
  obtain c2 where c2: "add_detail r ''numeric_precision'' ''precision'' c1 = Inr c2"
    using add_detail_total by blast
  obtain c3 where c3: "add_detail r ''numeric_scale'' ''scale'' c2 = Inr c3"
    using add_detail_total by blast
  from k c1 c2 c3 show ?thesis by (simp add: col_info_def)
qed

lemma columns_loop_total:
  "list_all column_row_ok rows \<Longrightarrow>
   \<exists>cols. columns_loop acc rows = Inr (acc @ cols) \<and> length cols = length rows"
proof (induction rows arbitrary: acc)
  case Nil
  then show ?case by simp
next
  case (Cons r rows)
  from Cons.prems have r: "column_row_ok r" and rs: "list_all column_row_ok rows" by simp_all
  from col_info_total[OF r] obtain ci where ci: "col_info r = Inr ci" by blast
  from Cons.IH[OF rs, of "acc @ [ci]"] obtain cols where
    "columns_loop (acc @ [ci]) rows = Inr ((acc @ [ci]) @ cols)" "length cols = length rows"
    by blast
  with ci have "columns_loop acc (r # rows) = Inr (acc @ (ci # cols))
    \<and> length (ci # cols) = length (r # rows)" by simp
  then show ?case by blast
qed

lemma collect_columns_total:
  assumes "d ColumnsQ [s, n] = Inr crows" and "list_all column_row_ok (rows_of crows)"
  shows "\<exists>cols. collect_columns d s n = Inr cols \<and> length cols = length (rows_of crows)"
proof (cases "rows_truthy crows")
  case True
  from columns_loop_total[OF assms(2), of "[]"] True assms(1) show ?thesis
    by (auto simp: collect_columns_def)
next
  case False
  then have "rows_of crows = []" by (cases crows) auto
  with False assms(1) show ?thesis by (simp add: collect_columns_def)
qed

lemma index_info_total:
  assumes "index_row_ok r"
  shows "\<exists>ii. index_info r = Inr ii"
proof -
  from assms obtain a b c e f where "getitem r ''indexname'' = Inr a"
    "getitem r ''indexdef'' = Inr b" "getitem r ''index_size'' = Inr c"
    "getitem r ''is_unique'' = Inr e" "getitem r ''is_primary'' = Inr f"
    by (auto simp: index_row_ok_def has_key_def getitem_def)
  then show ?thesis by (simp add: index_info_def)
qed

lemma indexes_loop_total:
  "list_all index_row_ok rows \<Longrightarrow>
   \<exists>idxs. indexes_loop acc rows = Inr (acc @ idxs) \<and> length idxs = length rows"
proof (induction rows arbitrary: acc)
  case Nil
  then show ?case by simp
next
  case (Cons r rows)
  from Cons.prems have r: "index_row_ok r" and rs: "list_all index_row_ok rows" by simp_all
  from index_info_total[OF r] obtain ii where ii: "index_info r = Inr ii" by blast
  from Cons.IH[OF rs, of "acc @ [ii]"] obtain idxs where
    "indexes_loop (acc @ [ii]) rows = Inr ((acc @ [ii]) @ idxs)" "length idxs = length rows"
    by blast
  with ii have "indexes_loop acc (r # rows) = Inr (acc @ (ii # idxs))
    \<and> length (ii # idxs) = length (r # rows)" by simp
  then show ?case by blast
qed

lemma collect_indexes_total:
  assumes "d IndexesQ [s, n] = Inr irows" and "list_all index_row_ok (rows_of irows)"
  shows "\<exists>idxs. collect_indexes d s n = Inr idxs \<and> length idxs = length (rows_of irows)"
proof (cases "rows_truthy irows")
  case True
  from indexes_loop_total[OF assms(2), of "[]"] True assms(1) show ?thesis
    by (auto simp: collect_indexes_def)
next
  case False
  then have "rows_of irows = []" by (cases irows) auto
  with False assms(1) show ?thesis by (simp add: collect_indexes_def)
qed

lemma key_ok_getitem: "key_ok r k \<Longrightarrow> \<exists>v. getitem r k = Inr v \<and> hashable v"
  by (auto simp: key_ok_def getitem_def split: option.splits)

lemma dep_info_total:
  assumes "dependency_row_ok r"
  shows "\<exists>di. dep_info r = Inr di"
proof -
  from assms obtain a b c where "getitem r ''source_schema'' = Inr a"
    "getitem r ''source_table'' = Inr b" "getitem r ''source_type'' = Inr c" "hashable c"
    by (auto simp: dependency_row_ok_def has_key_def key_ok_def getitem_def split: option.splits)
  then show ?thesis by (simp add: dep_info_def dep_type_map_get_def)
qed

lemma dependencies_loop_total:
  "list_all dependency_row_ok rows \<Longrightarrow>
   \<exists>deps. dependencies_loop acc rows = Inr (acc @ deps) \<and> length deps = length rows"
proof (induction rows arbitrary: acc)
  case Nil
  then show ?case by simp
next
  case (Cons r rows)
  from Cons.prems have r: "dependency_row_ok r" and rs: "list_all dependency_row_ok rows"
    by simp_all
  from dep_info_total[OF r] obtain di where di: "dep_info r = Inr di" by blast
  from Cons.IH[OF rs, of "acc @ [di]"] obtain deps where
    "dependencies_loop (acc @ [di]) rows = Inr ((acc @ [di]) @ deps)"
    "length deps = length rows"
    by blast
  with di have "dependencies_loop acc (r # rows) = Inr (acc @ (di # deps))
    \<and> length (di # deps) = length (r # rows)" by simp
  then show ?case by blast
qed

lemma collect_dependencies_total:
  assumes "d DependenciesQ [s, n] = Inr drows" and "list_all dependency_row_ok (rows_of drows)"
  shows "\<exists>deps. collect_dependencies d s n = Inr deps
    \<and> length deps = length (rows_of drows)"
proof (cases "rows_truthy drows")
  case True
  from dependencies_loop_total[OF assms(2), of "[]"] True assms(1) show ?thesis
    by (auto simp: collect_dependencies_def)
next
  case False
  then have "rows_of drows = []" by (cases drows) auto
  with False assms(1) show ?thesis by (simp add: collect_dependencies_def)
qed

lemma con_step_total:
  assumes "constraint_row_ok r"
  shows "\<exists>c'. con_step c r = Inr c'"
proof -
  from assms obtain k t col fs ft fc where "getitem r ''constraint_name'' = Inr k"
    "hashable k" "getitem r ''constraint_type'' = Inr t" "getitem r ''column_name'' = Inr col"
    "getitem r ''foreign_table_schema'' = Inr fs" "getitem r ''foreign_table_name'' = Inr ft"
    "getitem r ''foreign_column_name'' = Inr fc"
    by (auto simp: constraint_row_ok_def has_key_def key_ok_def getitem_def split: option.splits)
  then show ?thesis by (simp add: con_step_def con_enter_def Let_def)
qed

lemma con_loop_total:
  "list_all constraint_row_ok rows \<Longrightarrow> \<exists>c'. con_loop c rows = Inr c'"
proof (induction rows arbitrary: c)
  case Nil
  then show ?case by simp
next
  case (Cons r rows)
  from Cons.prems have r: "constraint_row_ok r" and rs: "list_all constraint_row_ok rows"
    by simp_all
  from con_step_total[OF r] obtain c1 where "con_step c r = Inr c1" by blast
  with Cons.IH[OF rs, of c1] show ?case by simp
qed

lemma collect_constraints_total:
  assumes "d ConstraintsQ [s, n] = Inr krows" and "list_all constraint_row_ok (rows_of krows)"
  shows "\<exists>cons. collect_constraints d s n = Inr cons \<and> (rows_of krows = [] \<longrightarrow> cons = [])"
proof (cases "rows_truthy krows")
  case True
  then have "rows_of krows \<noteq> []" by (cases krows) auto
  with con_loop_total[OF assms(2), of "[]"] True assms(1) show ?thesis
    by (auto simp: collect_constraints_def constraints_list_def)
next
  case False
  with assms(1) show ?thesis by (simp add: collect_constraints_def constraints_list_def)
qed

text \<open>
  C9. An entity whose collector queries all succeed is in the report, with the record
  the source builds for it; a query that returned no rows (an empty list or
  \<^verbatim>\<open>None\<close>) contributes the empty list to the record. The rows that are returned
  carry the labels their query selects.
\<close>

theorem entity_with_empty_results_is_kept:
  "(gd db = Inr d \<and> d SchemasQ [] = Inr srows \<and> d TablesQ [] = Inr trows
    \<and> list_all listed (rows_of trows) \<and> E \<in> set (rows_of trows)
    \<and> getitem E ''table_schema'' = Inr s \<and> getitem E ''table_name'' = Inr n
    \<and> d ColumnsQ [s, n] = Inr crows \<and> list_all column_row_ok (rows_of crows)
    \<and> d ConstraintsQ [s, n] = Inr krows \<and> list_all constraint_row_ok (rows_of krows)
    \<and> d IndexesQ [s, n] = Inr irows \<and> list_all index_row_ok (rows_of irows) \<longrightarrow>
      (\<exists>ts cols cons idxs.
         get_tables_impl gd db = tables_report db (schemas_of srows) ts
         \<and> PDict [(''schema'', s), (''name'', n), (''type'', PStr ''table''),
                  (''comment'', dict_get E ''table_comment'' (PStr [])),
                  (''size'', dict_get E ''table_size'' (PStr [])),
                  (''estimated_rows'', dict_get E ''estimated_rows'' (PInt 0)),
                  (''columns'', PList cols), (''constraints'', PList cons),
                  (''indexes'', PList idxs)] \<in> set ts
         \<and> (rows_of crows = [] \<longrightarrow> cols = [])
         \<and> (rows_of krows = [] \<longrightarrow> cons = [])
         \<and> (rows_of irows = [] \<longrightarrow> idxs = [])))
   \<and> (gd db = Inr d \<and> d SchemasQ [] = Inr srows \<and> d ViewsQ [] = Inr vrows
    \<and> list_all listed (rows_of vrows) \<and> E \<in> set (rows_of vrows)
    \<and> getitem E ''table_schema'' = Inr s \<and> getitem E ''table_name'' = Inr n
    \<and> d ColumnsQ [s, n] = Inr crows \<and> list_all column_row_ok (rows_of crows)
    \<and> d DependenciesQ [s, n] = Inr drows \<and> list_all dependency_row_ok (rows_of drows) \<longrightarrow>
      (\<exists>vs cols deps.
         get_views_impl gd db = views_report db (schemas_of srows) vs
         \<and> PDict [(''schema'', s), (''name'', n), (''type'', PStr ''view''),
                  (''comment'', dict_get E ''view_comment'' (PStr [])),
                  (''definition'', dict_get E ''view_definition'' (PStr [])),
                  (''columns'', PList cols), (''dependencies'', PList deps)] \<in> set vs
         \<and> (rows_of crows = [] \<longrightarrow> cols = [])
         \<and> (rows_of drows = [] \<longrightarrow> deps = [])))"
proof (intro conjI impI; elim conjE)
  assume a: "gd db = Inr d" "d SchemasQ [] = Inr srows" "d TablesQ [] = Inr trows"
    "list_all listed (rows_of trows)" "E \<in> set (rows_of trows)"
    "getitem E ''table_schema'' = Inr s" "getitem E ''table_name'' = Inr n"
    and c: "d ColumnsQ [s, n] = Inr crows" "list_all column_row_ok (rows_of crows)"
    and k: "d ConstraintsQ [s, n] = Inr krows" "list_all constraint_row_ok (rows_of krows)"
    and i: "d IndexesQ [s, n] = Inr irows" "list_all index_row_ok (rows_of irows)"
  from a(5) have ne: "rows_of trows \<noteq> []" by auto
  from collect_columns_total[of d s n crows, OF c] obtain cols where
    cols: "collect_columns d s n = Inr cols" "length cols = length (rows_of crows)" by blast
  from collect_constraints_total[of d s n krows, OF k] obtain cons where
    cons: "collect_constraints d s n = Inr cons" "rows_of krows = [] \<longrightarrow> cons = []" by blast
  from collect_indexes_total[of d s n irows, OF i] obtain idxs where
    idxs: "collect_indexes d s n = Inr idxs" "length idxs = length (rows_of irows)" by blast
  let ?rec = "PDict [(''schema'', s), (''name'', n), (''type'', PStr ''table''),
                  (''comment'', dict_get E ''table_comment'' (PStr [])),
                  (''size'', dict_get E ''table_size'' (PStr [])),
                  (''estimated_rows'', dict_get E ''estimated_rows'' (PInt 0)),
                  (''columns'', PList cols), (''constraints'', PList cons),
                  (''indexes'', PList idxs)]"
  have "table_record d E = Some ?rec"
    using a(6,7) cols(1) cons(1) idxs(1) by (simp add: table_record_def table_info_def)
  with a(5) have m: "?rec \<in> set (List.map_filter (table_record d) (rows_of trows))"
    unfolding in_set_map_filter by blast
  have r: "get_tables_impl gd db =
      tables_report db (schemas_of srows) (List.map_filter (table_record d) (rows_of trows))"
    by (rule tables_report_of_listing[of gd db d srows trows, OF a(1-3) ne a(4)])
  from cols(2) idxs(2) have e: "rows_of crows = [] \<longrightarrow> cols = []"
    "rows_of irows = [] \<longrightarrow> idxs = []" by auto
  from r m e cons(2) show "\<exists>ts cols cons idxs.
         get_tables_impl gd db = tables_report db (schemas_of srows) ts
         \<and> PDict [(''schema'', s), (''name'', n), (''type'', PStr ''table''),
                  (''comment'', dict_get E ''table_comment'' (PStr [])),
                  (''size'', dict_get E ''table_size'' (PStr [])),
                  (''estimated_rows'', dict_get E ''estimated_rows'' (PInt 0)),
                  (''columns'', PList cols), (''constraints'', PList cons),
                  (''indexes'', PList idxs)] \<in> set ts
         \<and> (rows_of crows = [] \<longrightarrow> cols = [])
         \<and> (rows_of krows = [] \<longrightarrow> cons = [])
         \<and> (rows_of irows = [] \<longrightarrow> idxs = [])"
    by blast
next
  assume a: "gd db = Inr d" "d SchemasQ [] = Inr srows" "d ViewsQ [] = Inr vrows"
    "list_all listed (rows_of vrows)" "E \<in> set (rows_of vrows)"
    "getitem E ''table_schema'' = Inr s" "getitem E ''table_name'' = Inr n"
    and c: "d ColumnsQ [s, n] = Inr crows" "list_all column_row_ok (rows_of crows)"
    and k: "d DependenciesQ [s, n] = Inr drows" "list_all dependency_row_ok (rows_of drows)"
  from a(5) have ne: "rows_of vrows \<noteq> []" by auto
  from collect_columns_total[of d s n crows, OF c] obtain cols where
    cols: "collect_columns d s n = Inr cols" "length cols = length (rows_of crows)" by blast
  from collect_dependencies_total[of d s n drows, OF k] obtain deps where
    deps: "collect_dependencies d s n = Inr deps" "length deps = length (rows_of drows)"
    by blast
  let ?rec = "PDict [(''schema'', s), (''name'', n), (''type'', PStr ''view''),
                  (''comment'', dict_get E ''view_comment'' (PStr [])),
                  (''definition'', dict_get E ''view_definition'' (PStr [])),
                  (''columns'', PList cols), (''dependencies'', PList deps)]"
  have "view_record d E = Some ?rec"
    using a(6,7) cols(1) deps(1) by (simp add: view_record_def view_info_def)
  with a(5) have m: "?rec \<in> set (List.map_filter (view_record d) (rows_of vrows))"
    unfolding in_set_map_filter by blast
  have r: "get_views_impl gd db =
      views_report db (schemas_of srows) (List.map_filter (view_record d) (rows_of vrows))"
    by (rule views_report_of_listing[of gd db d srows vrows, OF a(1-3) ne a(4)])
  from cols(2) deps(2) have e: "rows_of crows = [] \<longrightarrow> cols = []"
    "rows_of drows = [] \<longrightarrow> deps = []" by auto
  from r m e show "\<exists>vs cols deps.
         get_views_impl gd db = views_report db (schemas_of srows) vs
         \<and> PDict [(''schema'', s), (''name'', n), (''type'', PStr ''view''),
                  (''comment'', dict_get E ''view_comment'' (PStr [])),
                  (''definition'', dict_get E ''view_definition'' (PStr [])),
                  (''columns'', PList cols), (''dependencies'', PList deps)] \<in> set vs
         \<and> (rows_of crows = [] \<longrightarrow> cols = [])
         \<and> (rows_of drows = [] \<longrightarrow> deps = [])"
    by blast
qed

theorem entity_with_empty_results_is_kept_witness:
  "bare_driver ColumnsQ [PStr ''public'', PStr ''users''] = Inr (Some [])
   \<and> bare_driver ConstraintsQ [PStr ''public'', PStr ''users''] = Inr None
   \<and> bare_driver IndexesQ [PStr ''public'', PStr ''users''] = Inr None
   \<and> (\<exists>ts. get_tables_impl bare ''shop'' = tables_report ''shop'' [PDict public_schema_row] ts
        \<and> PDict [(''schema'', PStr ''public''), (''name'', PStr ''users''),
                 (''type'', PStr ''table''), (''comment'', PStr ''accounts''),
                 (''size'', PStr ''8192 bytes''), (''estimated_rows'', PInt 3),
                 (''columns'', PList []), (''constraints'', PList []),
                 (''indexes'', PList [])] \<in> set ts)
   \<and> bare_driver ColumnsQ [PStr ''public'', PStr ''active_users''] = Inr (Some [])
   \<and> bare_driver DependenciesQ [PStr ''public'', PStr ''active_users''] = Inr None
   \<and> (\<exists>vs. get_views_impl bare ''shop'' = views_report ''shop'' [PDict public_schema_row] vs
        \<and> PDict [(''schema'', PStr ''public''), (''name'', PStr ''active_users''),
                 (''type'', PStr ''view''), (''comment'', PNone),
                 (''definition'', PStr ''SELECT id FROM users''),
                 (''columns'', PList []), (''dependencies'', PList [])] \<in> set vs)"
proof -
  have ok: "bare ''shop'' = Inr bare_driver"
    "bare_driver SchemasQ [] = Inr (Some [public_schema_row])"
    "bare_driver TablesQ [] = Inr (Some [users_row])"
    "bare_driver ViewsQ [] = Inr (Some [active_users_row])"
    by (simp_all add: bare_def bare_driver_def)
  have wf: "list_all listed (rows_of (Some [users_row]))"
    "list_all listed (rows_of (Some [active_users_row]))"
    by (simp_all add: listed_def has_key_def users_row_def active_users_row_def)
  have m: "users_row \<in> set (rows_of (Some [users_row]))"
    "active_users_row \<in> set (rows_of (Some [active_users_row]))"
    by simp_all
  have k: "getitem users_row ''table_schema'' = Inr (PStr ''public'')"
    "getitem users_row ''table_name'' = Inr (PStr ''users'')"
    "getitem active_users_row ''table_schema'' = Inr (PStr ''public'')"
    "getitem active_users_row ''table_name'' = Inr (PStr ''active_users'')"
    by (simp_all add: getitem_def users_row_def active_users_row_def)
  have q: "bare_driver ColumnsQ [PStr ''public'', PStr ''users''] = Inr (Some [])"
    "bare_driver ConstraintsQ [PStr ''public'', PStr ''users''] = Inr None"
    "bare_driver IndexesQ [PStr ''public'', PStr ''users''] = Inr None"
    "bare_driver ColumnsQ [PStr ''public'', PStr ''active_users''] = Inr (Some [])"
    "bare_driver DependenciesQ [PStr ''public'', PStr ''active_users''] = Inr None"
    by (simp_all add: bare_driver_def)
  have z: "list_all column_row_ok (rows_of (Some []))"
    "list_all constraint_row_ok (rows_of None)" "list_all index_row_ok (rows_of None)"
    "list_all dependency_row_ok (rows_of None)"
    by simp_all
  note t = entity_with_empty_results_is_kept[of bare "''shop''" bare_driver
      "Some [public_schema_row]" "Some [users_row]" users_row "PStr ''public''"
      "PStr ''users''" "Some []" None None "Some [active_users_row]" None,
      THEN conjunct1, rule_format]
  note v = entity_with_empty_results_is_kept[of bare "''shop''" bare_driver
      "Some [public_schema_row]" "Some [users_row]" active_users_row "PStr ''public''"
      "PStr ''active_users''" "Some []" None None "Some [active_users_row]" None,
      THEN conjunct2, rule_format]
  have t': "\<exists>ts cols cons idxs.
         get_tables_impl bare ''shop'' =
           tables_report ''shop'' (schemas_of (Some [public_schema_row])) ts
         \<and> PDict [(''schema'', PStr ''public''), (''name'', PStr ''users''),
                  (''type'', PStr ''table''),
                  (''comment'', dict_get users_row ''table_comment'' (PStr [])),
                  (''size'', dict_get users_row ''table_size'' (PStr [])),
                  (''estimated_rows'', dict_get users_row ''estimated_rows'' (PInt 0)),
                  (''columns'', PList cols), (''constraints'', PList cons),
                  (''indexes'', PList idxs)] \<in> set ts
         \<and> cols = [] \<and> cons = [] \<and> idxs = []"
    using t ok wf m k q z by simp
  have v': "\<exists>vs cols deps.
         get_views_impl bare ''shop'' =
           views_report ''shop'' (schemas_of (Some [public_schema_row])) vs
         \<and> PDict [(''schema'', PStr ''public''), (''name'', PStr ''active_users''),
                  (''type'', PStr ''view''),
                  (''comment'', dict_get active_users_row ''view_comment'' (PStr [])),
                  (''definition'', dict_get active_users_row ''view_definition'' (PStr [])),
                  (''columns'', PList cols), (''dependencies'', PList deps)] \<in> set vs
         \<and> cols = [] \<and> deps = []"
    using v ok wf m k q z by simp
  have g: "dict_get users_row ''table_comment'' (PStr []) = PStr ''accounts''"
    "dict_get users_row ''table_size'' (PStr []) = PStr ''8192 bytes''"
    "dict_get users_row ''estimated_rows'' (PInt 0) = PInt 3"
    "dict_get active_users_row ''view_comment'' (PStr []) = PNone"
    "dict_get active_users_row ''view_definition'' (PStr []) = PStr ''SELECT id FROM users''"
    "schemas_of (Some [public_schema_row]) = [PDict public_schema_row]"
    by (simp_all add: dict_get_def users_row_def active_users_row_def schemas_of_def)
  from t' v' q show ?thesis unfolding g by blast
qed

subsection \<open>The columns of a constraint\<close>

lemma py_eq_refl: "py_eq x x"
  by (cases x) auto

lemma py_eq_sym: "py_eq x y \<Longrightarrow> py_eq y x"
  by (cases x; cases y) auto

lemma py_eq_trans: "py_eq x y \<Longrightarrow> py_eq y z \<Longrightarrow> py_eq x z"
  by (cases x; cases y; cases z) (auto split: if_splits)

lemma py_eq_left: "py_eq k n \<Longrightarrow> py_eq k' k = py_eq k' n"
  using py_eq_sym py_eq_trans by blast

lemma con_contains_lookup: "con_contains cs k = (con_lookup cs k \<noteq> None)"
  by (induction cs) auto

lemma con_lookup_cong: "py_eq k n \<Longrightarrow> con_lookup cs k = con_lookup cs n"
  by (induction cs) (auto simp: py_eq_left)

lemma con_contains_cong: "py_eq k n \<Longrightarrow> con_contains cs k = con_contains cs n"
  by (simp add: con_contains_lookup con_lookup_cong)

lemma con_lookup_append:
  "con_lookup (cs @ [(k, d)]) n =
     (case con_lookup cs n of Some x \<Rightarrow> Some x | None \<Rightarrow> if py_eq k n then Some d else None)"
  by (induction cs) auto

lemma con_contains_append:
  "con_contains (cs @ [(k, d)]) n = (con_contains cs n \<or> py_eq k n)"
  by (induction cs) auto

lemma con_lookup_modify:
  "con_lookup (con_modify cs k f) n =
     (if py_eq k n then map_option f (con_lookup cs n) else con_lookup cs n)"
proof (induction cs)
  case Nil
  then show ?case by simp
next
  case (Cons a cs)
  obtain k' d where a: "a = (k', d)" by (cases a)
  show ?case
  proof (cases "py_eq k n")
    case True
    then have "py_eq k' k = py_eq k' n" by (rule py_eq_left)
    with True Cons.IH a show ?thesis by simp
  next
    case False
    then have "\<not> (py_eq k' k \<and> py_eq k' n)" using py_eq_sym py_eq_trans by blast
    with False Cons.IH a show ?thesis by auto
  qed
qed

lemma con_contains_modify: "con_contains (con_modify cs k f) n = con_contains cs n"
  by (induction cs) (auto split: if_splits)

lemma keys_distinct_modify: "keys_distinct (con_modify cs k f) = keys_distinct cs"
  by (induction cs) (auto simp: con_contains_modify split: if_splits)

lemma keys_distinct_append:
  "keys_distinct (cs @ [(k, d)]) = (keys_distinct cs \<and> \<not> con_contains cs k)"
proof (induction cs)
  case Nil
  then show ?case by simp
next
  case (Cons a cs)
  obtain k' d' where a: "a = (k', d')" by (cases a)
  have "py_eq k k' = py_eq k' k" using py_eq_sym by blast
  with Cons.IH a show ?case by (auto simp: con_contains_append)
qed

lemma cols_of_modify_references:
  "cols_of (con_modify cs k (\<lambda>d. d\<lparr>con_references := r\<rparr>)) n = cols_of cs n"
  by (cases "con_lookup cs n") (auto simp: cols_of_def con_lookup_modify)

lemma con_enter_props:
  assumes "con_enter c r k t = Inr c2" and "keys_distinct c"
  shows "keys_distinct c2" and "con_contains c2 n = (con_contains c n \<or> py_eq k n)"
    and "cols_of c2 n = cols_of c n"
proof -
  let ?c1 = "c @ [(k, \<lparr>con_type = t, con_columns = [], con_references = None\<rparr>)]"
  have c1: "cols_of ?c1 n = cols_of c n"
    by (cases "con_lookup c n") (auto simp: cols_of_def con_lookup_append)
  consider (old) "con_contains c k" "c2 = c"
    | (new) "\<not> con_contains c k" "c2 = ?c1"
    | (fk) fref where "\<not> con_contains c k"
        "c2 = con_modify ?c1 k (\<lambda>d. d\<lparr>con_references := fref\<rparr>)"
    using assms(1)
    by (auto simp: con_enter_def Let_def ebind_eq_Inr split: if_splits)
  then have "keys_distinct c2 \<and> con_contains c2 n = (con_contains c n \<or> py_eq k n)
    \<and> cols_of c2 n = cols_of c n"
  proof cases
    case old
    from old(1) have "py_eq k n \<Longrightarrow> con_contains c n" using con_contains_cong by blast
    with old assms(2) show ?thesis by auto
  next
    case new
    with assms(2) c1 show ?thesis
      by (simp add: keys_distinct_append con_contains_append)
  next
    case fk
    with assms(2) c1 show ?thesis
      by (simp add: keys_distinct_modify keys_distinct_append con_contains_modify
          con_contains_append cols_of_modify_references)
  qed
  then show "keys_distinct c2" and "con_contains c2 n = (con_contains c n \<or> py_eq k n)"
    and "cols_of c2 n = cols_of c n" by simp_all
qed

lemma con_step_props:
  assumes "con_step c r = Inr c'" and "keys_distinct c"
  shows "keys_distinct c'"
    and "con_contains c' n = (con_contains c n \<or> names_constraint n r)"
    and "cols_of c' n = cols_of c n @ (if names_constraint n r then row_column r else [])"
proof -
  from assms(1) obtain k t col c2 where k: "getitem r ''constraint_name'' = Inr k"
    and col: "getitem r ''column_name'' = Inr col"
    and c2: "con_enter c r k t = Inr c2"
    and c': "c' = (if truthy col
            then con_modify c2 k (\<lambda>d. d\<lparr>con_columns := con_columns d @ [col]\<rparr>)
            else c2)"
    by (auto simp: con_step_def ebind_eq_Inr split: if_splits)
  note p = con_enter_props[OF c2 assms(2)]
  from k have nc: "names_constraint n r = py_eq k n" by (simp add: names_constraint_def)
  from col have rc: "row_column r = (if truthy col then [col] else [])"
    by (simp add: row_column_def)
  show "keys_distinct c'" using c' p(1) by (simp add: keys_distinct_modify)
  show "con_contains c' n = (con_contains c n \<or> names_constraint n r)"
    using c' p(2)[of n] nc by (simp add: con_contains_modify)
  show "cols_of c' n = cols_of c n @ (if names_constraint n r then row_column r else [])"
  proof (cases "truthy col \<and> py_eq k n")
    case True
    then have "con_contains c2 n" using p(2)[of n] by simp
    then obtain d where d: "con_lookup c2 n = Some d" by (auto simp: con_contains_lookup)
    with True c' have "cols_of c' n = cols_of c2 n @ [col]"
      by (simp add: cols_of_def con_lookup_modify)
    with True p(3)[of n] nc rc show ?thesis by simp
  next
    case False
    then have "cols_of c' n = cols_of c2 n"
      using c' by (auto simp: cols_of_def con_lookup_modify)
    with False p(3)[of n] nc rc show ?thesis by auto
  qed
qed

lemma con_loop_props:
  "con_loop c rows = Inr c' \<Longrightarrow> keys_distinct c \<Longrightarrow>
   keys_distinct c'
   \<and> con_contains c' n = (con_contains c n \<or> list_ex (names_constraint n) rows)
   \<and> cols_of c' n = cols_of c n @ columns_for rows n"
proof (induction rows arbitrary: c)
  case Nil
  then show ?case by (simp add: columns_for_def)
next
  case (Cons r rows)
  from Cons.prems(1) obtain c1 where s: "con_step c r = Inr c1"
    and l: "con_loop c1 rows = Inr c'" by (auto simp: ebind_eq_Inr)
  note p = con_step_props[OF s Cons.prems(2)]
  from Cons.IH[OF l p(1)] p(2)[of n] p(3)[of n] show ?case
    by (auto simp: columns_for_def)
qed

lemma filter_distinct_key:
  "keys_distinct cs \<Longrightarrow> con_lookup cs n = Some d \<Longrightarrow>
   \<exists>k. filter (\<lambda>(k, d). py_eq k n) cs = [(k, d)]"
proof (induction cs)
  case Nil
  then show ?case by simp
next
  case (Cons a cs)
  obtain k' d' where a: "a = (k', d')" by (cases a)
  show ?case
  proof (cases "py_eq k' n")
    case True
    from Cons.prems(1) a have "\<not> con_contains cs k'" by simp
    then have "\<not> con_contains cs n" using True con_contains_cong by blast
    then have "filter (\<lambda>(k, d). py_eq k n) cs = []"
      by (induction cs) auto
    with True a Cons.prems(2) show ?thesis by simp
  next
    case False
    with Cons a show ?thesis by simp
  qed
qed

lemma descriptors_for_map:
  "descriptors_for (map con_descriptor cs) n = map con_descriptor (filter (\<lambda>(k, d). py_eq k n) cs)"
  by (induction cs) (auto simp: descriptors_for_def named_def)

lemma columns_for_nonempty:
  "(columns_for rows n \<noteq> []) = list_ex (\<lambda>r. names_constraint n r \<and> row_column r \<noteq> []) rows"
  by (induction rows) (auto simp: columns_for_def)

text \<open>
  The claim C5 as it is written fails on a check constraint: its one row names the
  constraint and has a null \<^verbatim>\<open>column_name\<close>, and the descriptor emitted for it has no
  columns.
\<close>

theorem check_constraint_has_no_columns:
  "constraints_list (Some (constraints_query age_check_tc [] [] ''public'' ''users'')) =
     Inr [PDict [(''name'', PStr ''users_age_check''), (''type'', PStr ''CHECK''),
                 (''columns'', PList [])]]"
  by (simp add: constraints_list_def constraints_query_def left_join_def con_step_def
      con_enter_def getitem_def dict_get_def age_check_tc_def)

text \<open>
  C5, amended. For every constraint name that appears in a row of the constraint-query
  result, exactly one descriptor is emitted for that name. Its columns list holds, in
  row order, the \<^verbatim>\<open>column_name\<close> of each row of that name whose \<^verbatim>\<open>column_name\<close> is
  truthy; a row whose \<^verbatim>\<open>column_name\<close> is null contributes no column. The list is
  non-empty exactly when some row of that name has a truthy \<^verbatim>\<open>column_name\<close>.
\<close>

theorem constraint_columns_in_row_order:
  assumes "list_all constraint_row_ok rows" and "r \<in> set rows" and "names_constraint n r"
  shows "\<exists>cl d. constraints_list (Some rows) = Inr cl
           \<and> descriptors_for cl n = [d]
           \<and> field d ''columns'' = Some (PList (columns_for rows n))
           \<and> (columns_for rows n \<noteq> []) =
               list_ex (\<lambda>r. names_constraint n r \<and> row_column r \<noteq> []) rows"
proof -
  from assms(2) have ne: "rows_truthy (Some rows)" by auto
  from con_loop_total[OF assms(1), of "[]"] obtain c where c: "con_loop [] rows = Inr c"
    by blast
  have kd: "keys_distinct []" by simp
  from con_loop_props[OF c kd, of n]
  have d: "keys_distinct c" and m: "con_contains c n = list_ex (names_constraint n) rows"
    and cols: "cols_of c n = columns_for rows n"
    by (simp_all add: cols_of_def)
  from assms(2,3) have "list_ex (names_constraint n) rows" by (auto simp: list_ex_iff)
  with m obtain d0 where d0: "con_lookup c n = Some d0" by (auto simp: con_contains_lookup)
  from filter_distinct_key[OF d d0] obtain k where
    f: "filter (\<lambda>(k, d). py_eq k n) c = [(k, d0)]" by blast
  have cl: "constraints_list (Some rows) = Inr (map con_descriptor c)"
    using ne c by (simp add: constraints_list_def)
  have ds: "descriptors_for (map con_descriptor c) n = [con_descriptor (k, d0)]"
    using f by (simp add: descriptors_for_map)
  have fl: "field (con_descriptor (k, d0)) ''columns'' = Some (PList (columns_for rows n))"
    using cols d0 by (simp add: cols_of_def)
  from cl ds fl columns_for_nonempty[of rows n] show ?thesis by blast
qed

theorem constraint_columns_in_row_order_witness:
  "list_all constraint_row_ok [pk_a_row, check_row, pk_b_row]
   \<and> names_constraint (PStr ''t_pkey'') pk_a_row
   \<and> names_constraint (PStr ''t_check'') check_row
   \<and> (\<exists>cl d. constraints_list (Some [pk_a_row, check_row, pk_b_row]) = Inr cl
         \<and> descriptors_for cl (PStr ''t_pkey'') = [d]
         \<and> field d ''columns'' = Some (PList [PStr ''a'', PStr ''b'']))
   \<and> (\<exists>cl d. constraints_list (Some [pk_a_row, check_row, pk_b_row]) = Inr cl
         \<and> descriptors_for cl (PStr ''t_check'') = [d]
         \<and> field d ''columns'' = Some (PList []))"
proof -
  have ok: "list_all constraint_row_ok [pk_a_row, check_row, pk_b_row]"
    by (simp add: constraint_row_ok_def key_ok_def has_key_def pk_a_row_def pk_b_row_def
        check_row_def)
  have a: "pk_a_row \<in> set [pk_a_row, check_row, pk_b_row]"
    "check_row \<in> set [pk_a_row, check_row, pk_b_row]" by simp_all
  have n: "names_constraint (PStr ''t_pkey'') pk_a_row"
    "names_constraint (PStr ''t_check'') check_row"
    by (simp_all add: names_constraint_def getitem_def pk_a_row_def check_row_def)
  have c: "columns_for [pk_a_row, check_row, pk_b_row] (PStr ''t_pkey'') = [PStr ''a'', PStr ''b'']"
    "columns_for [pk_a_row, check_row, pk_b_row] (PStr ''t_check'') = []"
    by (simp_all add: columns_for_def names_constraint_def row_column_def getitem_def
        pk_a_row_def pk_b_row_def check_row_def)
  from constraint_columns_in_row_order[OF ok a(1) n(1)]
    constraint_columns_in_row_order[OF ok a(2) n(2)] ok n
  show ?thesis unfolding c by blast
qed

end
